theory Spec2Isabelle
  imports Main "HOL-Library.Word" "HOL-Library.List_Lexorder" "HOL-Library.Char_ord"
begin

unbundle bit_operations_syntax

section \<open>Values\<close>

text \<open>
  Payloads, results and client descriptors are JavaScript values of type \<open>any\<close>. The
  development covers the values that are trees of null, booleans, numbers, strings,
  arrays and objects. An object is the list of its own enumerable properties in insertion
  order; numbers are the integers, which \<open>JSON.stringify\<close> prints in decimal; a string
  is the list of its code units, each below 256.
\<close>

datatype json =
    JNull
  | JBool bool
  | JNum int
  | JStr string
  | JArr "json list"
  | JObj "(string \<times> json) list"

text \<open>\<open>Array.prototype.join\<close> on an array of strings.\<close>

fun join :: "string \<Rightarrow> string list \<Rightarrow> string" where
  "join sep [] = []"
| "join sep [x] = x"
| "join sep (x # y # ys) = x @ sep @ join sep (y # ys)"

subsection \<open>\<open>JSON.stringify\<close> on primitives\<close>

fun nat_to_decimal :: "nat \<Rightarrow> string" where
  "nat_to_decimal n =
     (if n < 10 then [char_of (48 + n)]
      else nat_to_decimal (n div 10) @ [char_of (48 + n mod 10)])"

definition number_to_string :: "int \<Rightarrow> string" where
  "number_to_string n =
     (if n < 0 then CHR ''-'' # nat_to_decimal (nat (- n)) else nat_to_decimal (nat n))"

definition hex_digit :: "nat \<Rightarrow> char" where
  "hex_digit n = (if n < 10 then char_of (48 + n) else char_of (87 + n))"

text \<open>One code unit of a quoted JSON string (QuoteJSONString of ECMA-262).\<close>

definition escape_char :: "char \<Rightarrow> string" where
  "escape_char c =
     (if c = CHR 0x22 then [CHR 0x5C, CHR 0x22]
      else if c = CHR 0x5C then [CHR 0x5C, CHR 0x5C]
      else if c = CHR 0x08 then [CHR 0x5C, CHR ''b'']
      else if c = CHR 0x0C then [CHR 0x5C, CHR ''f'']
      else if c = CHR 0x0A then [CHR 0x5C, CHR ''n'']
      else if c = CHR 0x0D then [CHR 0x5C, CHR ''r'']
      else if c = CHR 0x09 then [CHR 0x5C, CHR ''t'']
      else if (of_char c :: nat) < 32
        then [CHR 0x5C, CHR ''u'', CHR ''0'', CHR ''0'',
              hex_digit (of_char c div 16), hex_digit (of_char c mod 16)]
      else [c])"

definition quote_string :: "string \<Rightarrow> string" where
  "quote_string s = CHR 0x22 # concat (map escape_char s) @ [CHR 0x22]"

subsection \<open>Canonical serialisation and signatures\<close>

text \<open>
  \<open>ActionStateStore.stableStringify\<close>. \<open>Object.keys(value).sort()\<close> orders the keys by
  code units, which is the lexicographic order on character lists; \<open>value[key]\<close> is the
  lookup in the property list, and a missing property would read as \<open>undefined\<close>.
\<close>

function stableStringify :: "json \<Rightarrow> string" where
  "stableStringify JNull = ''null''"
| "stableStringify (JBool b) = (if b then ''true'' else ''false'')"
| "stableStringify (JNum n) = number_to_string n"
| "stableStringify (JStr s) = quote_string s"
| "stableStringify (JArr items) =
     ''['' @ join '','' (map (\<lambda>item. stableStringify item) items) @ '']''"
| "stableStringify (JObj props) =
     (let keys = sort (map fst props);
          entries = map (\<lambda>key. quote_string key @ '':'' @
                      (case map_of props key of
                         Some v \<Rightarrow> stableStringify v
                       | None \<Rightarrow> ''undefined'')) keys
      in ''{'' @ join '','' entries @ ''}'')"
  by pat_completeness auto

lemma size_map_of_less:
  "map_of props key = Some v \<Longrightarrow> size v < Suc (size_list (size_prod (\<lambda>_. 0) size) props)"
  by (induction props) (auto split: if_splits)

lemma size_member_less: "x \<in> set items \<Longrightarrow> size x < Suc (size_list size items)"
  by (induction items) auto

termination stableStringify
  by (relation "measure size") (auto simp: size_map_of_less size_member_less)

definition computeSignature :: "string \<Rightarrow> string \<Rightarrow> json \<Rightarrow> string" where
  "computeSignature sessionId tool payload =
     sessionId @ '':'' @ tool @ '':'' @ stableStringify payload"

subsection \<open>Values as trees\<close>

text \<open>
  The property list of a JavaScript object holds each key once.
\<close>

fun wf_json :: "json \<Rightarrow> bool" where
  "wf_json (JArr items) = (\<forall>item\<in>set items. wf_json item)"
| "wf_json (JObj props) =
     (distinct (map fst props) \<and> (\<forall>prop\<in>set props. wf_json (snd prop)))"
| "wf_json _ = True"

text \<open>
  Equality of two values as trees: primitives are equal, arrays are equal element by
  element in order, and objects have the same keys with equal values under each key,
  whatever the order in which the keys were inserted.
\<close>

function same_value :: "json \<Rightarrow> json \<Rightarrow> bool" where
  "same_value JNull b = (b = JNull)"
| "same_value (JBool x) b = (b = JBool x)"
| "same_value (JNum x) b = (b = JNum x)"
| "same_value (JStr x) b = (b = JStr x)"
| "same_value (JArr xs) b =
     (case b of JArr ys \<Rightarrow> list_all2 same_value xs ys | _ \<Rightarrow> False)"
| "same_value (JObj ps) b =
     (case b of
        JObj qs \<Rightarrow>
          set (map fst ps) = set (map fst qs) \<and>
          (\<forall>key\<in>set (map fst ps).
             case map_of ps key of
               None \<Rightarrow> False
             | Some v \<Rightarrow> (case map_of qs key of None \<Rightarrow> False | Some w \<Rightarrow> same_value v w))
      | _ \<Rightarrow> False)"
  by pat_completeness auto
termination
  apply (relation "measure (\<lambda>(a, b). size a)")
    apply (auto simp: size_map_of_less size_member_less)
  done

section \<open>Action state store\<close>

text \<open>An exception \<open>new Error(message)\<close> is the value \<open>Error message\<close>.\<close>

datatype error = Error string

datatype action_stage = Plan | DryRun | Confirm

record stage_metadata =
  requestedBy :: "string option"
  approvedBy :: "string option"
  approvedAt :: "int option"
  confirmedBy :: "string option"
  confirmedAt :: "int option"
  expiresAt :: "int option"

record action_stage_record =
  actionId :: string
  mode :: action_stage
  sessionId :: string
  tool :: string
  payload :: json
  result :: json
  timestamp :: int
  metadata :: stage_metadata

record action_lifecycle =
  actionId :: string
  sessionId :: string
  tool :: string
  payload :: json
  signature :: string
  plan :: "action_stage_record option"
  dryRun :: "action_stage_record option"
  confirm :: "action_stage_record option"

text \<open>
  The events of \<open>InMemoryEventStore\<close>: the action events written by the store, and the
  session event written by the host on \<open>initialize\<close>.
\<close>

datatype event =
    ActionEvent (etype: string) (eactionId: string) (esessionId: string) (etool: string)
      (epayload: json) (eresult: json) (emetadata: stage_metadata) (etimestamp: int)
  | SessionInitialized string json int

text \<open>
  The state of an \<open>ActionStateStore\<close>: its two maps and the event store it appends to.
\<close>

record action_state_store =
  lifecycles :: "string \<rightharpoonup> action_lifecycle"
  signatureIndex :: "string \<rightharpoonup> string"
  events :: "event list"

definition DEFAULT_APPROVAL_TTL_MS :: int where
  "DEFAULT_APPROVAL_TTL_MS = 5 * 60 * 1000"

text \<open>Truthiness of an optional string and of an optional number.\<close>

fun truthy_string :: "string option \<Rightarrow> bool" where
  "truthy_string None = False"
| "truthy_string (Some s) = (s \<noteq> [])"

fun truthy_number :: "int option \<Rightarrow> bool" where
  "truthy_number None = False"
| "truthy_number (Some n) = (n \<noteq> 0)"

text \<open>
  Every operation takes the store and returns the store it leaves behind together with
  what it returns or throws. The fields of the \<open>params\<close> object are the arguments, in the
  order of the destructuring: \<open>s\<close> is \<open>sessionId\<close>, \<open>t\<close> is \<open>tool\<close>, \<open>p\<close> is
  \<open>payload\<close>, \<open>r\<close> is \<open>result\<close>, \<open>a\<close> is \<open>actionId\<close>. \<open>uuid\<close> is the value of
  \<open>crypto.randomUUID()\<close> and \<open>now\<close> the value of \<open>Date.now()\<close> read by the call.
\<close>

definition recordPlan ::
  "string \<Rightarrow> string \<Rightarrow> json \<Rightarrow> json \<Rightarrow> string option \<Rightarrow> string \<Rightarrow> int
     \<Rightarrow> action_state_store \<Rightarrow> action_state_store \<times> (error + action_stage_record)" where
  "recordPlan s t p r requestedBy' uuid now st =
     (let sg = computeSignature s t p;
          planRec = \<lparr> action_stage_record.actionId = uuid, mode = Plan,
                      action_stage_record.sessionId = s, action_stage_record.tool = t,
                      action_stage_record.payload = p, result = r, timestamp = now,
                      metadata = \<lparr> requestedBy = requestedBy',
                                   approvedBy = None, approvedAt = None, confirmedBy = None,
                                   confirmedAt = None, expiresAt = None \<rparr> \<rparr>;
          lc = \<lparr> action_lifecycle.actionId = uuid, action_lifecycle.sessionId = s,
                 action_lifecycle.tool = t, action_lifecycle.payload = p,
                 signature = sg, plan = Some planRec, dryRun = None, confirm = None \<rparr>;
          existing = signatureIndex st sg;
          lifecycles1 = (if truthy_string existing
                         then (lifecycles st)(the existing := None)
                         else lifecycles st)
      in (st \<lparr> lifecycles := lifecycles1(uuid \<mapsto> lc),
              signatureIndex := (signatureIndex st)(sg \<mapsto> uuid),
              events := events st @
                [ActionEvent ''action_plan_recorded'' uuid s t p r (metadata planRec) now] \<rparr>,
          Inr planRec))"

definition recordDryRun ::
  "string \<Rightarrow> string \<Rightarrow> json \<Rightarrow> json \<Rightarrow> string option \<Rightarrow> int option \<Rightarrow> int
     \<Rightarrow> action_state_store \<Rightarrow> action_state_store \<times> (error + action_stage_record)" where
  "recordDryRun s t p r approvedBy' approvalTtlMs now st =
     (let sg = computeSignature s t p;
          found = signatureIndex st sg
      in if \<not> truthy_string found then
           (st, Inl (Error ''A prior plan run is required before dry_run.''))
         else
           (let a = the found in
            case lifecycles st a of
              None \<Rightarrow> (st, Inl (Error ''Plan metadata missing for this action.''))
            | Some lc \<Rightarrow>
                (case plan lc of
                   None \<Rightarrow> (st, Inl (Error ''Plan metadata missing for this action.''))
                 | Some planRec \<Rightarrow>
                     if action_lifecycle.sessionId lc \<noteq> s then
                       (st, Inl (Error ''Action session mismatch.''))
                     else
                       (let expires = now + (case approvalTtlMs of
                                               Some ttl \<Rightarrow> ttl
                                             | None \<Rightarrow> DEFAULT_APPROVAL_TTL_MS);
                            dryRunRec = \<lparr> action_stage_record.actionId = a, mode = DryRun,
                               action_stage_record.sessionId = s,
                               action_stage_record.tool = t,
                               action_stage_record.payload = p, result = r,
                               timestamp = now,
                               metadata = \<lparr>
                                 requestedBy = requestedBy (metadata planRec),
                                 approvedBy = approvedBy',
                                 approvedAt = Some now,
                                 confirmedBy = None, confirmedAt = None,
                                 expiresAt = Some expires \<rparr> \<rparr>;
                            lc' = lc \<lparr> dryRun := Some dryRunRec,
                                       action_lifecycle.payload := p \<rparr>
                        in (st \<lparr> lifecycles := (lifecycles st)(a \<mapsto> lc'),
                                events := events st @
                                  [ActionEvent ''action_dry_run_recorded'' a s t p r
                                     (metadata dryRunRec) now] \<rparr>,
                            Inr dryRunRec)))))"

definition validateConfirm ::
  "string \<Rightarrow> string \<Rightarrow> string \<Rightarrow> json \<Rightarrow> int
     \<Rightarrow> action_state_store \<Rightarrow> action_state_store \<times> (error + action_stage_record)" where
  "validateConfirm a s t p now st =
     (case lifecycles st a of
        None \<Rightarrow> (st, Inl (Error ''Unknown action. Please re-run plan and dry_run.''))
      | Some lc \<Rightarrow>
          if action_lifecycle.tool lc \<noteq> t then
            (st, Inl (Error ''Action tool mismatch.''))
          else if action_lifecycle.sessionId lc \<noteq> s then
            (st, Inl (Error ''Action session mismatch.''))
          else if computeSignature s t p \<noteq> signature lc then
            (st, Inl (Error ''Confirmation payload differs from the approved dry_run.''))
          else
            (case dryRun lc of
               None \<Rightarrow>
                 (st, Inl (Error
                    ''A matching dry_run approval is required before confirmation.''))
             | Some dryRunRec \<Rightarrow>
                 if \<not> truthy_string (approvedBy (metadata dryRunRec)) then
                   (st, Inl (Error ''Dry_run has not been approved.''))
                 else if truthy_number (expiresAt (metadata dryRunRec))
                         \<and> the (expiresAt (metadata dryRunRec)) < now then
                   (st, Inl (Error
                      ''Dry_run approval has expired. Please run a new dry_run.''))
                 else if confirm lc \<noteq> None then
                   (st, Inl (Error ''Action already confirmed.''))
                 else (st, Inr dryRunRec)))"

definition recordConfirm ::
  "string \<Rightarrow> string \<Rightarrow> string \<Rightarrow> json \<Rightarrow> json \<Rightarrow> string option \<Rightarrow> int
     \<Rightarrow> action_state_store \<Rightarrow> action_state_store \<times> (error + action_stage_record)" where
  "recordConfirm a s t p r confirmedBy' now st =
     (case lifecycles st a of
        None \<Rightarrow> (st, Inl (Error ''Unknown action.''))
      | Some lc \<Rightarrow>
          (let planMeta = map_option metadata (plan lc);
               dryRunMeta = map_option metadata (dryRun lc);
               confirmRec = \<lparr> action_stage_record.actionId = a, mode = Confirm,
                  action_stage_record.sessionId = s, action_stage_record.tool = t,
                  action_stage_record.payload = p, result = r, timestamp = now,
                  metadata = \<lparr>
                    requestedBy = Option.bind planMeta requestedBy,
                    approvedBy = Option.bind dryRunMeta approvedBy,
                    approvedAt = Option.bind dryRunMeta approvedAt,
                    confirmedBy = confirmedBy',
                    confirmedAt = Some now,
                    expiresAt = Option.bind dryRunMeta expiresAt \<rparr> \<rparr>;
               lc' = lc \<lparr> confirm := Some confirmRec \<rparr>
           in (st \<lparr> lifecycles := (lifecycles st)(a \<mapsto> lc'),
                   signatureIndex := (signatureIndex st)(signature lc := None),
                   events := events st @
                     [ActionEvent ''action_confirm_recorded'' a s t p r
                        (metadata confirmRec) now] \<rparr>,
               Inr confirmRec)))"

text \<open>\<open>new ActionStateStore(new InMemoryEventStore())\<close>.\<close>

definition emptyStore :: action_state_store where
  "emptyStore = \<lparr> lifecycles = Map.empty, signatureIndex = Map.empty, events = [] \<rparr>"

subsection \<open>Sequences of store operations\<close>

text \<open>
  The calls a client of the store can make, with their arguments, in the order in which
  they reach the store. \<open>allocated\<close> is the identifier a \<open>recordPlan\<close> allocates,
  \<open>recorded\<close> the identifier a \<open>recordConfirm\<close> is given.
\<close>

datatype store_op =
    OpRecordPlan string string json json "string option" string int
  | OpRecordDryRun string string json json "string option" "int option" int
  | OpValidateConfirm string string string json int
  | OpRecordConfirm string string string json json "string option" int

fun apply_op :: "store_op \<Rightarrow> action_state_store \<Rightarrow> action_state_store" where
  "apply_op (OpRecordPlan s t p r rq uuid now) st = fst (recordPlan s t p r rq uuid now st)"
| "apply_op (OpRecordDryRun s t p r ap ttl now) st = fst (recordDryRun s t p r ap ttl now st)"
| "apply_op (OpValidateConfirm a s t p now) st = fst (validateConfirm a s t p now st)"
| "apply_op (OpRecordConfirm a s t p r cb now) st = fst (recordConfirm a s t p r cb now st)"

fun allocated :: "store_op \<Rightarrow> string option" where
  "allocated (OpRecordPlan s t p r rq uuid now) = Some uuid"
| "allocated _ = None"

fun recorded :: "store_op \<Rightarrow> string option" where
  "recorded (OpRecordConfirm a s t p r cb now) = Some a"
| "recorded _ = None"

definition run_ops :: "store_op list \<Rightarrow> action_state_store \<Rightarrow> action_state_store" where
  "run_ops ops st = foldl (\<lambda>st' op. apply_op op st') st ops"

text \<open>The \<open>action_confirm_recorded\<close> events of the ledger for one identifier.\<close>

definition confirm_events :: "string \<Rightarrow> action_state_store \<Rightarrow> event list" where
  "confirm_events a st =
     filter (\<lambda>e. case e of
               ActionEvent ty a' _ _ _ _ _ _ \<Rightarrow> ty = ''action_confirm_recorded'' \<and> a' = a
             | SessionInitialized _ _ _ \<Rightarrow> False) (events st)"

definition no_index_entry :: "string \<Rightarrow> action_state_store \<Rightarrow> bool" where
  "no_index_entry a st = (\<forall>sg. signatureIndex st sg \<noteq> Some a)"

definition confirm_kept :: "string \<Rightarrow> action_stage_record \<Rightarrow> action_state_store \<Rightarrow> bool" where
  "confirm_kept a c st =
     (case lifecycles st a of None \<Rightarrow> True | Some lc \<Rightarrow> confirm lc = Some c)"

text \<open>
  A store holding one lifecycle: planned as \<open>A\<close> at time 0 and approved by a dry run at
  time 1; the same store after a \<open>recordConfirm\<close> at time 4; and after a second
  \<open>recordConfirm\<close> at time 5.
\<close>

definition approvedStore :: action_state_store where
  "approvedStore =
     fst (recordDryRun ''s'' ''t'' (JObj []) JNull (Some ''Reviewer'') None 1
       (fst (recordPlan ''s'' ''t'' (JObj []) JNull (Some ''Reviewer'') ''A'' 0 emptyStore)))"

definition confirmedStore :: action_state_store where
  "confirmedStore =
     fst (recordConfirm ''A'' ''s'' ''t'' (JObj []) (JNum 1) (Some ''Reviewer'') 4
            approvedStore)"

definition reconfirmedStore :: action_state_store where
  "reconfirmedStore =
     fst (recordConfirm ''A'' ''s'' ''t'' (JObj []) (JNum 2) (Some ''Reviewer'') 5
            confirmedStore)"

section \<open>Frame codec\<close>

text \<open>
  A \<open>Buffer\<close> is the list of its bytes. The readers are called only after the length
  checks that keep them in range; the writers are called with values in range.
\<close>

type_synonym byte = "8 word"

definition readUInt16BE :: "byte list \<Rightarrow> nat \<Rightarrow> nat" where
  "readUInt16BE buffer off = unat (buffer ! off) * 256 + unat (buffer ! (off + 1))"

definition readUInt32BE :: "byte list \<Rightarrow> nat \<Rightarrow> nat" where
  "readUInt32BE buffer off =
     ((unat (buffer ! off) * 256 + unat (buffer ! (off + 1))) * 256
        + unat (buffer ! (off + 2))) * 256 + unat (buffer ! (off + 3))"

definition writeUInt16BE :: "nat \<Rightarrow> byte list" where
  "writeUInt16BE n = [of_nat (n div 256), of_nat n]"

definition writeUInt32BE :: "nat \<Rightarrow> byte list" where
  "writeUInt32BE n =
     [of_nat (n div 16777216), of_nat (n div 65536), of_nat (n div 256), of_nat n]"

record decoded_frame =
  fin :: bool
  opcode :: nat
  payload :: "byte list"
  totalLength :: nat

text \<open>\<open>applyMask\<close>: the loop over the indices of \<open>buffer\<close>.\<close>

definition applyMask :: "byte list \<Rightarrow> byte list \<Rightarrow> byte list" where
  "applyMask buffer maskKey =
     map (\<lambda>i. (buffer ! i) XOR (maskKey ! (i mod 4))) [0..<length buffer]"

text \<open>
  \<open>decodeFrame\<close>, from the optional masking key on: \<open>payloadLength\<close> and \<open>offset\<close> are
  the values the length field has left in the two variables. \<open>Inr None\<close> is the \<open>null\<close>
  returned for an incomplete frame, \<open>Inl\<close> the exception.
\<close>

definition decodeBody ::
  "byte list \<Rightarrow> bool \<Rightarrow> nat \<Rightarrow> bool \<Rightarrow> nat \<Rightarrow> nat \<Rightarrow> error + decoded_frame option" where
  "decodeBody buffer fin' opcode' masked payloadLength offset =
     (if masked \<and> length buffer < offset + 4 then Inr None
      else
        (let maskingKey = take 4 (drop offset buffer);
             offset' = (if masked then offset + 4 else offset)
         in if length buffer < offset' + payloadLength then Inr None
            else
              (let slice = take payloadLength (drop offset' buffer)
               in Inr (Some \<lparr> fin = fin', opcode = opcode',
                                payload = (if masked then applyMask slice maskingKey
                                           else slice),
                                totalLength = offset' + payloadLength \<rparr>))))"

definition decodeFrame :: "byte list \<Rightarrow> error + decoded_frame option" where
  "decodeFrame buffer =
     (if length buffer < 2 then Inr None
      else
        (let firstByte = buffer ! 0;
             secondByte = buffer ! 1;
             fin' = (firstByte AND 0x80 \<noteq> 0);
             opcode' = unat (firstByte AND 0x0f);
             masked = (secondByte AND 0x80 \<noteq> 0);
             payloadLength = unat (secondByte AND 0x7f)
         in if payloadLength = 126 then
              (if length buffer < 2 + 2 then Inr None
               else decodeBody buffer fin' opcode' masked (readUInt16BE buffer 2) 4)
            else if payloadLength = 127 then
              (if length buffer < 2 + 8 then Inr None
               else
                 (let high = readUInt32BE buffer 2;
                      low = readUInt32BE buffer (2 + 4)
                  in if high \<noteq> 0 then
                       Inl (Error ''WebSocket frames larger than 4GB are not supported'')
                     else decodeBody buffer fin' opcode' masked low 10))
            else decodeBody buffer fin' opcode' masked payloadLength 2))"

text \<open>
  \<open>encodeFrame\<close>. \<open>writeUInt32BE\<close> throws a range error, here
  \<open>Error ''ERR_OUT_OF_RANGE''\<close>, for a length of 2^32 or more.
\<close>

definition encodeFrame :: "byte list \<Rightarrow> nat \<Rightarrow> error + byte list" where
  "encodeFrame payload' opcode' =
     (let firstByte = 0x80 OR (of_nat opcode' AND 0x0f)
      in if length payload' < 126 then
           Inr ([firstByte, of_nat (length payload')] @ payload')
         else if length payload' < 65536 then
           Inr ([firstByte, 126] @ writeUInt16BE (length payload') @ payload')
         else if length payload' < 4294967296 then
           Inr ([firstByte, 127] @ writeUInt32BE 0 @ writeUInt32BE (length payload')
                  @ payload')
         else Inl (Error ''ERR_OUT_OF_RANGE''))"

section \<open>Connection\<close>

text \<open>
  \<open>decodeCloseFrame\<close>: the status code and the bytes of the reason (the argument of
  \<open>toString('utf8')\<close>).
\<close>

definition decodeCloseFrame :: "byte list \<Rightarrow> nat \<times> byte list" where
  "decodeCloseFrame payload' =
     (if length payload' < 2 then (1005, [])
      else (readUInt16BE payload' 0, if length payload' > 2 then drop 2 payload' else []))"

text \<open>\<open>Buffer.from(reason, 'utf8')\<close> for the ASCII reasons the connection passes.\<close>

definition utf8 :: "string \<Rightarrow> byte list" where
  "utf8 s = map (\<lambda>c. of_nat (of_char c)) s"

text \<open>
  What a \<open>WebSocketConnection\<close> does to its socket, and the events it emits to its
  listeners. A \<open>message\<close> event carries the payload bytes that \<open>toString('utf8')\<close>
  turns into the text. The \<open>socket.end()\<close> that \<open>close\<close> passes as the completion of its
  write is recorded right after the write.
\<close>

datatype socket_action = Write "byte list" | End

datatype connection_event = Message "byte list" | Close nat "byte list"

record ws_connection =
  buffer :: "byte list"
  closed :: bool
  socketOut :: "socket_action list"
  emitted :: "connection_event list"

definition newConnection :: ws_connection where
  "newConnection = \<lparr> buffer = [], closed = False, socketOut = [], emitted = [] \<rparr>"

text \<open>\<open>WebSocketConnection.close\<close>.\<close>

definition close :: "nat \<Rightarrow> string \<Rightarrow> ws_connection \<Rightarrow> ws_connection \<times> error option" where
  "close code reason conn =
     (if closed conn then (conn, None)
      else
        (case encodeFrame (writeUInt16BE code @ utf8 reason) 0x8 of
           Inl e \<Rightarrow> (conn, Some e)
         | Inr frame \<Rightarrow>
             (conn \<lparr> socketOut := socketOut conn @ [Write frame, End], closed := True \<rparr>,
              None)))"

text \<open>
  The \<open>while (true)\<close> loop of \<open>handleData\<close>. It returns the connection it leaves behind
  and the exception that left it, if any. Every decoded frame takes at least two bytes
  off the buffer, so the loop ends.
\<close>

lemma decodeFrame_progress:
  assumes "decodeFrame buf = Inr (Some frame)"
  shows "2 \<le> totalLength frame" and "totalLength frame \<le> length buf"
  using assms
  by (auto simp add: decodeFrame_def decodeBody_def Let_def split: if_splits)

function frameLoop :: "ws_connection \<Rightarrow> ws_connection \<times> error option" where
  "frameLoop conn =
     (case decodeFrame (buffer conn) of
        Inl e \<Rightarrow> (conn, Some e)
      | Inr None \<Rightarrow> (conn, None)
      | Inr (Some frame) \<Rightarrow>
          (let conn1 = conn \<lparr> buffer := drop (totalLength frame) (buffer conn) \<rparr>
           in if opcode frame = 0x1 then
                (if \<not> fin frame then
                   close 1003 ''Fragmented frames are not supported'' conn1
                 else
                   frameLoop (conn1 \<lparr> emitted := emitted conn1 @ [Message (payload frame)] \<rparr>))
              else if opcode frame = 0x8 then
                (case decodeCloseFrame (payload frame) of
                   (code, reason) \<Rightarrow>
                     (conn1 \<lparr> emitted := emitted conn1 @ [Close code reason],
                              closed := True,
                              socketOut := socketOut conn1 @ [End] \<rparr>, None))
              else if opcode frame = 0x9 then
                (case encodeFrame (payload frame) 0xA of
                   Inl e \<Rightarrow> (conn1, Some e)
                 | Inr pongFrame \<Rightarrow>
                     frameLoop (conn1 \<lparr> socketOut := socketOut conn1 @ [Write pongFrame] \<rparr>))
              else if opcode frame = 0xA then frameLoop conn1
              else close 1003 ''Unsupported WebSocket opcode'' conn1))"
  by pat_completeness auto
termination
proof (relation "measure (\<lambda>conn. length (buffer conn))")
  show "wf (measure (\<lambda>conn. length (buffer conn)))" by simp
qed (use decodeFrame_progress in \<open>fastforce+\<close>)

declare frameLoop.simps [simp del]

definition handleData :: "byte list \<Rightarrow> ws_connection \<Rightarrow> ws_connection \<times> error option" where
  "handleData chunk conn = frameLoop (conn \<lparr> buffer := buffer conn @ chunk \<rparr>)"

text \<open>
  The \<open>data\<close> events of a socket, one chunk each, in order; an exception ends the run.
\<close>

fun handleChunks :: "byte list list \<Rightarrow> ws_connection \<Rightarrow> ws_connection \<times> error option" where
  "handleChunks [] conn = (conn, None)"
| "handleChunks (chunk # chunks) conn =
     (case handleData chunk conn of
        (conn', Some e) \<Rightarrow> (conn', Some e)
      | (conn', None) \<Rightarrow> handleChunks chunks conn')"

section \<open>Session dispatcher\<close>

text \<open>
  A registered tool as the catalog shows it, a session (\<open>sid\<close> is its \<open>id\<close>; replies
  go to its connection) and a parsed request (\<open>rid\<close> is its \<open>id\<close>, \<open>rpc_method\<close> its
  \<open>method\<close>; \<open>None\<close> is an absent member).
\<close>

record tool =
  name :: string
  description :: string
  inputSchema :: json

record session =
  sid :: string
  initialized :: bool
  clientInfo :: "json option"

record json_rpc_request =
  jsonrpc :: string
  rid :: "json option"
  rpc_method :: string
  params :: "json option"

text \<open>\<open>message.id ?? null\<close> and \<open>message.params?.client ?? null\<close>.\<close>

definition id_or_null :: "json_rpc_request \<Rightarrow> json" where
  "id_or_null message = (case rid message of Some v \<Rightarrow> v | None \<Rightarrow> JNull)"

definition params_client :: "json_rpc_request \<Rightarrow> json" where
  "params_client message =
     (case params message of
        Some (JObj props) \<Rightarrow> (case map_of props ''client'' of Some v \<Rightarrow> v | None \<Rightarrow> JNull)
      | _ \<Rightarrow> JNull)"

text \<open>
  The objects that \<open>sendResponse\<close> and \<open>sendError\<close> serialise and hand to
  \<open>connection.send\<close>.
\<close>

definition responsePayload :: "json \<Rightarrow> json \<Rightarrow> json" where
  "responsePayload i res = JObj [(''jsonrpc'', JStr ''2.0''), (''id'', i), (''result'', res)]"

definition errorPayload :: "json \<Rightarrow> int \<Rightarrow> string \<Rightarrow> json" where
  "errorPayload i code msg =
     JObj [(''jsonrpc'', JStr ''2.0''), (''id'', i),
           (''error'', JObj [(''code'', JNum code), (''message'', JStr msg)])]"

definition toolCatalog :: "tool list \<Rightarrow> json" where
  "toolCatalog tools =
     JArr (map (\<lambda>t. JObj [(''name'', JStr (name t)),
                           (''description'', JStr (description t)),
                           (''inputSchema'', inputSchema t)]) tools)"

definition initializeResult :: "tool list \<Rightarrow> json" where
  "initializeResult tools =
     JObj [(''protocolVersion'', JStr ''2024-05-22''),
           (''capabilities'',
              JObj [(''tools'', JObj [(''list'', JBool True), (''call'', JBool True),
                                      (''streaming'', JBool True)])]),
           (''tools'', toolCatalog tools)]"

text \<open>
  \<open>Host.handleInitialize\<close>, with \<open>tools\<close> the value of \<open>this.tools.list()\<close>: the session
  and the event store it leaves behind, and the payload it sends.
\<close>

definition handleInitialize ::
  "tool list \<Rightarrow> int \<Rightarrow> session \<Rightarrow> json_rpc_request \<Rightarrow> event list
     \<Rightarrow> session \<times> event list \<times> json" where
  "handleInitialize tools now sess message evs =
     (if initialized sess then
        (sess, evs, errorPayload (id_or_null message) (- 32600) ''Session already initialized'')
      else
        (let sess' = sess \<lparr> initialized := True,
                             clientInfo := Some (params_client message) \<rparr>
         in (sess',
             evs @ [SessionInitialized (sid sess') (params_client message) now],
             responsePayload (id_or_null message) (initializeResult tools))))"

definition exampleRequest :: json_rpc_request where
  "exampleRequest = \<lparr> jsonrpc = ''2.0'', rid = Some (JNum 1), rpc_method = ''initialize'',
                       params = Some (JObj [(''client'', JStr ''Reviewer'')]) \<rparr>"

definition echoTool :: tool where
  "echoTool = \<lparr> name = ''echo'', description = ''Echoes its input'',
                 inputSchema = JObj [(''type'', JStr ''object'')] \<rparr>"

section \<open>Properties of the action state store\<close>

lemma recordPlan_fst:
  "lifecycles (fst (recordPlan s t p r rq uuid now st)) uuid =
     Some \<lparr> action_lifecycle.actionId = uuid, action_lifecycle.sessionId = s,
            action_lifecycle.tool = t, action_lifecycle.payload = p,
            signature = computeSignature s t p,
            plan = Some \<lparr> action_stage_record.actionId = uuid, mode = Plan,
                      action_stage_record.sessionId = s, action_stage_record.tool = t,
                      action_stage_record.payload = p, result = r, timestamp = now,
                      metadata = \<lparr> requestedBy = rq,
                                   approvedBy = None, approvedAt = None, confirmedBy = None,
                                   confirmedAt = None, expiresAt = None \<rparr> \<rparr>,
            dryRun = None, confirm = None \<rparr>"
  "signatureIndex (fst (recordPlan s t p r rq uuid now st)) (computeSignature s t p) = Some uuid"
  by (simp_all add: recordPlan_def Let_def)

subsection \<open>Plan, dry run, confirmation check\<close>

text \<open>
  C1, as amended. From any store, \<open>recordPlan\<close> for \<open>(s, t, p)\<close> followed by
  \<open>recordDryRun\<close> for the same \<open>(s, t, p)\<close> returns a dry-run record \<open>d\<close> carrying the
  identifier allocated by the plan. When the dry run named a non-empty approver,
  \<open>validateConfirm\<close> with that identifier and the same \<open>(s, t, p)\<close>, read no later than
  the stamped expiry, returns \<open>d\<close>; when it named no approver or an empty one,
  \<open>validateConfirm\<close> throws "Dry_run has not been approved."; and in both cases
  \<open>validateConfirm\<close> with any payload whose signature differs throws
  "Confirmation payload differs from the approved dry_run.". The identifier is a UUID,
  hence a non-empty string.
\<close>

theorem plan_dry_run_confirm:
  assumes "uuid \<noteq> []"
  shows "let st1 = fst (recordPlan s t p r rq uuid now1 st);
             st2 = fst (recordDryRun s t p r' approver ttl now2 st1)
         in \<exists>d. snd (recordDryRun s t p r' approver ttl now2 st1) = Inr d
           \<and> action_stage_record.actionId d = uuid \<and> mode d = DryRun
           \<and> (truthy_string approver
                \<and> now3 \<le> now2 + (case ttl of Some n \<Rightarrow> n | None \<Rightarrow> DEFAULT_APPROVAL_TTL_MS)
                \<longrightarrow> validateConfirm uuid s t p now3 st2 = (st2, Inr d))
           \<and> (\<not> truthy_string approver
                \<longrightarrow> validateConfirm uuid s t p now3 st2 =
                      (st2, Inl (Error ''Dry_run has not been approved.'')))
           \<and> (\<forall>p' now4. computeSignature s t p' \<noteq> computeSignature s t p \<longrightarrow>
                 validateConfirm uuid s t p' now4 st2 =
                   (st2, Inl (Error
                      ''Confirmation payload differs from the approved dry_run.'')))"
  using assms
  by (cases approver)
     (auto simp add: recordDryRun_def validateConfirm_def Let_def recordPlan_fst)

theorem plan_dry_run_confirm_witness:
  "snd (validateConfirm ''A'' ''s'' ''t'' (JObj [(''amount'', JNum 10)]) 300000
     (fst (recordDryRun ''s'' ''t'' (JObj [(''amount'', JNum 10)]) JNull
             (Some ''Reviewer'') None 0
       (fst (recordPlan ''s'' ''t'' (JObj [(''amount'', JNum 10)]) JNull None ''A'' 0
               emptyStore)))))
   = snd (recordDryRun ''s'' ''t'' (JObj [(''amount'', JNum 10)]) JNull
            (Some ''Reviewer'') None 0
       (fst (recordPlan ''s'' ''t'' (JObj [(''amount'', JNum 10)]) JNull None ''A'' 0
               emptyStore)))
   \<and> snd (validateConfirm ''A'' ''s'' ''t'' (JObj [(''amount'', JNum 11)]) 0
     (fst (recordDryRun ''s'' ''t'' (JObj [(''amount'', JNum 10)]) JNull
             (Some ''Reviewer'') None 0
       (fst (recordPlan ''s'' ''t'' (JObj [(''amount'', JNum 10)]) JNull None ''A'' 0
               emptyStore)))))
   = Inl (Error ''Confirmation payload differs from the approved dry_run.'')
   \<and> snd (validateConfirm ''A'' ''s'' ''t'' (JObj [(''amount'', JNum 10)]) 0
     (fst (recordDryRun ''s'' ''t'' (JObj [(''amount'', JNum 10)]) JNull
             (Some '''') None 0
       (fst (recordPlan ''s'' ''t'' (JObj [(''amount'', JNum 10)]) JNull None ''A'' 0
               emptyStore)))))
   = Inl (Error ''Dry_run has not been approved.'')"
proof -
  have sig: "computeSignature ''s'' ''t'' (JObj [(''amount'', JNum 11)])
      \<noteq> computeSignature ''s'' ''t'' (JObj [(''amount'', JNum 10)])"
    by (simp add: computeSignature_def number_to_string_def)
  have le: "(300000::int) \<le> 0 + (case None of Some n \<Rightarrow> n | None \<Rightarrow> DEFAULT_APPROVAL_TTL_MS)"
    by (simp add: DEFAULT_APPROVAL_TTL_MS_def)
  have ne: "''A'' \<noteq> []" by simp
  from plan_dry_run_confirm [OF ne, of "''s''" "''t''" "JObj [(''amount'', JNum 10)]" JNull None 0
      emptyStore JNull "Some ''Reviewer''" None 0 300000]
  have a: "snd (validateConfirm ''A'' ''s'' ''t'' (JObj [(''amount'', JNum 10)]) 300000
     (fst (recordDryRun ''s'' ''t'' (JObj [(''amount'', JNum 10)]) JNull
             (Some ''Reviewer'') None 0
       (fst (recordPlan ''s'' ''t'' (JObj [(''amount'', JNum 10)]) JNull None ''A'' 0
               emptyStore)))))
   = snd (recordDryRun ''s'' ''t'' (JObj [(''amount'', JNum 10)]) JNull
            (Some ''Reviewer'') None 0
       (fst (recordPlan ''s'' ''t'' (JObj [(''amount'', JNum 10)]) JNull None ''A'' 0
               emptyStore)))
   \<and> snd (validateConfirm ''A'' ''s'' ''t'' (JObj [(''amount'', JNum 11)]) 0
     (fst (recordDryRun ''s'' ''t'' (JObj [(''amount'', JNum 10)]) JNull
             (Some ''Reviewer'') None 0
       (fst (recordPlan ''s'' ''t'' (JObj [(''amount'', JNum 10)]) JNull None ''A'' 0
               emptyStore)))))
   = Inl (Error ''Confirmation payload differs from the approved dry_run.'')"
    using sig le by (auto simp add: Let_def)
  from plan_dry_run_confirm [OF ne, of "''s''" "''t''" "JObj [(''amount'', JNum 10)]" JNull None 0
      emptyStore JNull "Some ''''" None 0 0]
  have b: "snd (validateConfirm ''A'' ''s'' ''t'' (JObj [(''amount'', JNum 10)]) 0
     (fst (recordDryRun ''s'' ''t'' (JObj [(''amount'', JNum 10)]) JNull
             (Some '''') None 0
       (fst (recordPlan ''s'' ''t'' (JObj [(''amount'', JNum 10)]) JNull None ''A'' 0
               emptyStore)))))
   = Inl (Error ''Dry_run has not been approved.'')"
    by (auto simp add: Let_def)
  from a b show ?thesis by simp
qed

text \<open>
  The sequence of C1 with \<open>approvedBy\<close> left out of the dry run: the check throws.
\<close>

theorem approval_required_counterexample:
  "snd (validateConfirm ''A'' ''s'' ''t'' (JObj []) 0
     (fst (recordDryRun ''s'' ''t'' (JObj []) JNull None None 0
       (fst (recordPlan ''s'' ''t'' (JObj []) JNull None ''A'' 0 emptyStore)))))
   = Inl (Error ''Dry_run has not been approved.'')"
  by (simp add: validateConfirm_def recordDryRun_def recordPlan_def emptyStore_def
      computeSignature_def Let_def)

subsection \<open>Re-planning a signature\<close>

text \<open>
  C3, as amended. When \<open>recordPlan\<close> computes a signature that the signature index
  already maps to an identifier \<open>old\<close> (a UUID, hence non-empty, and different from the
  fresh one), the index maps the signature to the new identifier afterwards, and the
  previous lifecycle is deleted from the lifecycle map: \<open>validateConfirm\<close> on \<open>old\<close>,
  with any arguments, throws "Unknown action. Please re-run plan and dry_run.".
\<close>

theorem replan_evicts_previous:
  assumes "signatureIndex st (computeSignature s t p) = Some old" and "old \<noteq> []"
    and "uuid \<noteq> old"
  shows "let st' = fst (recordPlan s t p r rq uuid now st)
         in signatureIndex st' (computeSignature s t p) = Some uuid
          \<and> lifecycles st' old = None
          \<and> validateConfirm old s' t' p' now' st' =
              (st', Inl (Error ''Unknown action. Please re-run plan and dry_run.''))"
  using assms by (simp add: recordPlan_def validateConfirm_def Let_def)

theorem replan_evicts_previous_witness:
  "snd (validateConfirm ''A'' ''s'' ''t'' (JObj []) 2
     (fst (recordPlan ''s'' ''t'' (JObj []) JNull None ''B'' 1
       (fst (recordPlan ''s'' ''t'' (JObj []) JNull None ''A'' 0 emptyStore)))))
   = Inl (Error ''Unknown action. Please re-run plan and dry_run.'')"
proof -
  have "signatureIndex (fst (recordPlan ''s'' ''t'' (JObj []) JNull None ''A'' 0 emptyStore))
          (computeSignature ''s'' ''t'' (JObj [])) = Some ''A''"
    by (rule recordPlan_fst)
  from replan_evicts_previous [OF this, of "''B''" JNull None 1 "''s''" "''t''" "JObj []" 2]
  show ?thesis by (simp add: Let_def)
qed

text \<open>Two plans for the same \<open>(s, t, p)\<close>; the first identifier is then unknown.\<close>

theorem superseded_plan_counterexample:
  "validateConfirm ''A'' ''s'' ''t'' (JObj []) 2
     (fst (recordPlan ''s'' ''t'' (JObj []) JNull None ''B'' 1
       (fst (recordPlan ''s'' ''t'' (JObj []) JNull None ''A'' 0 emptyStore))))
   = (fst (recordPlan ''s'' ''t'' (JObj []) JNull None ''B'' 1
       (fst (recordPlan ''s'' ''t'' (JObj []) JNull None ''A'' 0 emptyStore))),
      Inl (Error ''Unknown action. Please re-run plan and dry_run.''))"
  by (simp add: validateConfirm_def recordPlan_def emptyStore_def Let_def)

subsection \<open>Expiry of the approval\<close>

text \<open>
  C4, as amended. Take a lifecycle with a recorded plan that the signature index reaches
  under the signature of \<open>(s, t, p)\<close>. After \<open>recordDryRun\<close> for \<open>(s, t, p)\<close> read
  at \<open>now2\<close> with time to live \<open>ttl\<close> (so also with \<open>ttl = 0\<close>), every
  \<open>validateConfirm\<close> on the lifecycle's identifier read at a time strictly after the
  stamped expiry \<open>now2 + ttl\<close>, provided that instant is not 0, throws, whatever its
  other arguments;
  with the lifecycle's session, tool and payload, and a dry run that named an approver,
  it throws "Dry_run approval has expired. Please run a new dry_run.". At the instant of
  the expiry itself the approval is still valid.
\<close>

theorem expired_approval_rejected:
  assumes "signatureIndex st (computeSignature s t p) = Some a" and "a \<noteq> []"
    and "lifecycles st a = Some lc" and "plan lc \<noteq> None"
    and "action_lifecycle.sessionId lc = s" and "action_lifecycle.tool lc = t"
    and "signature lc = computeSignature s t p"
    and "expires = now2 + (case ttl of Some n \<Rightarrow> n | None \<Rightarrow> DEFAULT_APPROVAL_TTL_MS)"
    and "expires \<noteq> 0" and "expires < now3"
  shows "let st2 = fst (recordDryRun s t p r approver ttl now2 st)
         in (\<forall>s' t' p'. \<exists>e. validateConfirm a s' t' p' now3 st2 = (st2, Inl e))
          \<and> (truthy_string approver \<longrightarrow>
               validateConfirm a s t p now3 st2 =
                 (st2, Inl (Error
                    ''Dry_run approval has expired. Please run a new dry_run.'')))"
  using assms
  by (cases "plan lc") (auto simp add: recordDryRun_def validateConfirm_def Let_def)

theorem expired_approval_rejected_witness:
  "snd (validateConfirm ''A'' ''s'' ''t'' (JObj []) 1001
     (fst (recordDryRun ''s'' ''t'' (JObj []) JNull (Some ''Reviewer'') (Some 0) 1000
       (fst (recordPlan ''s'' ''t'' (JObj []) JNull None ''A'' 900 emptyStore)))))
   = Inl (Error ''Dry_run approval has expired. Please run a new dry_run.'')"
proof -
  let ?st = "fst (recordPlan ''s'' ''t'' (JObj []) JNull None ''A'' 900 emptyStore)"
  have "signatureIndex ?st (computeSignature ''s'' ''t'' (JObj [])) = Some ''A''"
    by (rule recordPlan_fst)
  from expired_approval_rejected [OF this _ recordPlan_fst(1), of 1000 1000 "Some 0" 1001
      JNull "Some ''Reviewer''"]
  show ?thesis by (simp add: Let_def)
qed

text \<open>
  A dry run with a time to live of 0 and a check read in the same millisecond: the check
  returns the dry-run record.
\<close>

theorem zero_ttl_same_instant_counterexample:
  "snd (validateConfirm ''A'' ''s'' ''t'' (JObj []) 1000
     (fst (recordDryRun ''s'' ''t'' (JObj []) JNull (Some ''Reviewer'') (Some 0) 1000
       (fst (recordPlan ''s'' ''t'' (JObj []) JNull None ''A'' 900 emptyStore)))))
   = snd (recordDryRun ''s'' ''t'' (JObj []) JNull (Some ''Reviewer'') (Some 0) 1000
       (fst (recordPlan ''s'' ''t'' (JObj []) JNull None ''A'' 900 emptyStore)))
   \<and> isl (snd (recordDryRun ''s'' ''t'' (JObj []) JNull (Some ''Reviewer'') (Some 0) 1000
       (fst (recordPlan ''s'' ''t'' (JObj []) JNull None ''A'' 900 emptyStore)))) = False"
  by (simp add: validateConfirm_def recordDryRun_def recordPlan_def emptyStore_def
      computeSignature_def Let_def)

subsection \<open>Failing calls leave the store as it was\<close>

text \<open>
  C10. When \<open>recordDryRun\<close> or \<open>recordConfirm\<close> throws, the store it leaves behind
  (lifecycle map, signature index and event ledger) is the store it was given, and
  \<open>validateConfirm\<close> leaves the store as it was given whether it returns or throws.
\<close>

theorem store_atomic_on_failure:
  "(snd (recordDryRun s t p r approver ttl now st) = Inl e \<longrightarrow>
      fst (recordDryRun s t p r approver ttl now st) = st)
   \<and> (snd (recordConfirm a s t p r confirmer now st) = Inl e \<longrightarrow>
      fst (recordConfirm a s t p r confirmer now st) = st)
   \<and> fst (validateConfirm a s t p now st) = st"
  by (auto simp add: recordDryRun_def recordConfirm_def validateConfirm_def Let_def
      split: option.splits if_splits)

theorem store_atomic_on_failure_witness:
  "snd (recordDryRun ''s'' ''t'' (JObj []) JNull None None 5 emptyStore)
     = Inl (Error ''A prior plan run is required before dry_run.'')
   \<and> fst (recordDryRun ''s'' ''t'' (JObj []) JNull None None 5 emptyStore) = emptyStore
   \<and> snd (recordConfirm ''A'' ''s'' ''t'' (JObj []) JNull None 5 emptyStore)
     = Inl (Error ''Unknown action.'')
   \<and> fst (recordConfirm ''A'' ''s'' ''t'' (JObj []) JNull None 5 emptyStore) = emptyStore"
proof -
  have d: "snd (recordDryRun ''s'' ''t'' (JObj []) JNull None None 5 emptyStore)
     = Inl (Error ''A prior plan run is required before dry_run.'')"
    by (simp add: recordDryRun_def emptyStore_def Let_def)
  have c: "snd (recordConfirm ''A'' ''s'' ''t'' (JObj []) JNull None 5 emptyStore)
     = Inl (Error ''Unknown action.'')"
    by (simp add: recordConfirm_def emptyStore_def)
  from store_atomic_on_failure [of "''s''" "''t''" "JObj []" JNull None None 5 emptyStore
      "Error ''A prior plan run is required before dry_run.''"] d
  have 1: "fst (recordDryRun ''s'' ''t'' (JObj []) JNull None None 5 emptyStore) = emptyStore"
    by simp
  from store_atomic_on_failure [of "''s''" "''t''" "JObj []" JNull None None 5 emptyStore
      "Error ''Unknown action.''" "''A''" None] c
  have 2: "fst (recordConfirm ''A'' ''s'' ''t'' (JObj []) JNull None 5 emptyStore) = emptyStore"
    by simp
  show ?thesis using d c 1 2 by simp
qed

subsection \<open>The confirm stage of a lifecycle\<close>

lemma approvedStore_eq:
  "approvedStore =
     \<lparr> lifecycles = [''A'' \<mapsto>
          \<lparr> action_lifecycle.actionId = ''A'', action_lifecycle.sessionId = ''s'',
            action_lifecycle.tool = ''t'', action_lifecycle.payload = JObj [],
            signature = ''s:t:{}'',
            plan = Some \<lparr> action_stage_record.actionId = ''A'', mode = Plan,
                      action_stage_record.sessionId = ''s'', action_stage_record.tool = ''t'',
                      action_stage_record.payload = JObj [], result = JNull, timestamp = 0,
                      metadata = \<lparr> requestedBy = Some ''Reviewer'',
                                   approvedBy = None, approvedAt = None, confirmedBy = None,
                                   confirmedAt = None, expiresAt = None \<rparr> \<rparr>,
            dryRun = Some \<lparr> action_stage_record.actionId = ''A'', mode = DryRun,
                      action_stage_record.sessionId = ''s'', action_stage_record.tool = ''t'',
                      action_stage_record.payload = JObj [], result = JNull, timestamp = 1,
                      metadata = \<lparr> requestedBy = Some ''Reviewer'',
                                   approvedBy = Some ''Reviewer'', approvedAt = Some 1,
                                   confirmedBy = None,
                                   confirmedAt = None, expiresAt = Some 300001 \<rparr> \<rparr>,
            confirm = None \<rparr>],
       signatureIndex = [''s:t:{}'' \<mapsto> ''A''],
       events =
         [ActionEvent ''action_plan_recorded'' ''A'' ''s'' ''t'' (JObj []) JNull
            \<lparr> requestedBy = Some ''Reviewer'',
              approvedBy = None, approvedAt = None, confirmedBy = None,
              confirmedAt = None, expiresAt = None \<rparr> 0,
          ActionEvent ''action_dry_run_recorded'' ''A'' ''s'' ''t'' (JObj []) JNull
            \<lparr> requestedBy = Some ''Reviewer'',
              approvedBy = Some ''Reviewer'', approvedAt = Some 1, confirmedBy = None,
              confirmedAt = None, expiresAt = Some 300001 \<rparr> 1] \<rparr>"
  by (simp add: approvedStore_def recordDryRun_def recordPlan_def emptyStore_def
      computeSignature_def Let_def DEFAULT_APPROVAL_TTL_MS_def)

text \<open>
  C2, on the code. Two confirmations of the same action reach the store one inside the
  other, as two pipelined confirm requests do: each write tool calls \<open>validateConfirm\<close>,
  awaits the connector and then calls \<open>recordConfirm\<close>. On the approved lifecycle \<open>A\<close>
  the first \<open>validateConfirm\<close> returns the dry-run record and leaves the store as it
  was, so the second returns it too; the first \<open>recordConfirm\<close> records the confirm
  stage with result 1; the second \<open>recordConfirm\<close> does not look at the confirm stage,
  returns, and replaces the stage with result 2; the ledger holds two
  \<open>action_confirm_recorded\<close> events for \<open>A\<close>.
\<close>

theorem pipelined_confirms_rerecord:
  "validateConfirm ''A'' ''s'' ''t'' (JObj []) 2 approvedStore =
     (approvedStore, snd (recordDryRun ''s'' ''t'' (JObj []) JNull (Some ''Reviewer'') None 1
        (fst (recordPlan ''s'' ''t'' (JObj []) JNull (Some ''Reviewer'') ''A'' 0 emptyStore))))
   \<and> isl (snd (validateConfirm ''A'' ''s'' ''t'' (JObj []) 2 approvedStore)) = False
   \<and> validateConfirm ''A'' ''s'' ''t'' (JObj []) 3 approvedStore =
       validateConfirm ''A'' ''s'' ''t'' (JObj []) 2 approvedStore
   \<and> map_option (\<lambda>lc. map_option result (confirm lc)) (lifecycles confirmedStore ''A'')
       = Some (Some (JNum 1))
   \<and> isl (snd (recordConfirm ''A'' ''s'' ''t'' (JObj []) (JNum 2) (Some ''Reviewer'') 5
                  confirmedStore)) = False
   \<and> map_option (\<lambda>lc. map_option result (confirm lc)) (lifecycles reconfirmedStore ''A'')
       = Some (Some (JNum 2))
   \<and> map etimestamp (confirm_events ''A'' reconfirmedStore) = [4, 5]"
  by (simp add: reconfirmedStore_def confirmedStore_def approvedStore_eq
      validateConfirm_def recordConfirm_def recordDryRun_def recordPlan_def emptyStore_def
      computeSignature_def confirm_events_def Let_def DEFAULT_APPROVAL_TTL_MS_def)

text \<open>
  What the other calls keep: a call that is not a \<open>recordConfirm\<close> on the identifier
  \<open>a\<close> (and does not allocate \<open>a\<close>) leaves an existing confirm stage of \<open>a\<close> and the
  confirm events of \<open>a\<close> as they were.
\<close>

lemma apply_op_confirm_kept:
  assumes "confirm_kept a c st" and "allocated op \<noteq> Some a" and "recorded op \<noteq> Some a"
  shows "confirm_kept a c (apply_op op st)
       \<and> confirm_events a (apply_op op st) = confirm_events a st"
proof (cases op)
  case (OpRecordPlan s t p r rq uuid now)
  with assms show ?thesis
    by (auto simp add: confirm_kept_def confirm_events_def recordPlan_def Let_def
        split: option.splits)
next
  case (OpRecordDryRun s t p r ap ttl now)
  with assms show ?thesis
    by (auto simp add: confirm_kept_def confirm_events_def recordDryRun_def Let_def
        split: option.splits if_splits)
next
  case (OpValidateConfirm a' s t p now)
  with assms show ?thesis
    by (auto simp add: confirm_kept_def confirm_events_def validateConfirm_def
        split: option.splits if_splits)
next
  case (OpRecordConfirm a' s t p r cb now)
  with assms show ?thesis
    by (auto simp add: confirm_kept_def confirm_events_def recordConfirm_def Let_def
        split: option.splits)
qed

lemma apply_op_no_index_entry:
  assumes "no_index_entry a st" and "allocated op \<noteq> Some a"
  shows "no_index_entry a (apply_op op st)
       \<and> (lifecycles st a \<noteq> None \<longrightarrow> lifecycles (apply_op op st) a \<noteq> None)"
proof (cases op)
  case (OpRecordPlan s t p r rq uuid now)
  with assms show ?thesis
    by (cases "signatureIndex st (computeSignature s t p)")
       (auto simp add: no_index_entry_def recordPlan_def Let_def)
next
  case (OpRecordDryRun s t p r ap ttl now)
  with assms show ?thesis
    by (auto simp add: no_index_entry_def recordDryRun_def Let_def
        split: option.splits if_splits)
next
  case (OpValidateConfirm a' s t p now)
  with assms show ?thesis
    by (auto simp add: no_index_entry_def validateConfirm_def
        split: option.splits if_splits)
next
  case (OpRecordConfirm a' s t p r cb now)
  with assms show ?thesis
    by (auto simp add: no_index_entry_def recordConfirm_def Let_def
        split: option.splits)
qed

lemma run_ops_confirm_kept:
  "confirm_kept a c st \<Longrightarrow>
   \<forall>op\<in>set ops. allocated op \<noteq> Some a \<and> recorded op \<noteq> Some a \<Longrightarrow>
     confirm_kept a c (run_ops ops st)
   \<and> confirm_events a (run_ops ops st) = confirm_events a st"
proof (induction ops arbitrary: st)
  case Nil
  then show ?case by (simp add: run_ops_def)
next
  case (Cons op ops)
  from Cons.prems have k: "confirm_kept a c (apply_op op st)"
    and e: "confirm_events a (apply_op op st) = confirm_events a st"
    using apply_op_confirm_kept [of a c st op] by auto
  from Cons.IH [OF k] Cons.prems(2) e show ?case
    by (simp add: run_ops_def)
qed

lemma run_ops_no_index_entry:
  "no_index_entry a st \<Longrightarrow> lifecycles st a \<noteq> None \<Longrightarrow>
   \<forall>op\<in>set ops. allocated op \<noteq> Some a \<Longrightarrow>
     lifecycles (run_ops ops st) a \<noteq> None"
proof (induction ops arbitrary: st)
  case Nil
  then show ?case by (simp add: run_ops_def)
next
  case (Cons op ops)
  from Cons.prems have n: "no_index_entry a (apply_op op st)"
    and l: "lifecycles (apply_op op st) a \<noteq> None"
    using apply_op_no_index_entry [of a st op] by auto
  from Cons.IH [OF n l] Cons.prems(3) show ?case
    by (simp add: run_ops_def)
qed

lemma validateConfirm_confirmed:
  assumes "lifecycles st a = Some lc" and "confirm lc \<noteq> None"
  shows "\<exists>e. validateConfirm a s t p now st = (st, Inl e)"
  using assms by (auto simp add: validateConfirm_def split: option.splits)

text \<open>
  Once a lifecycle \<open>a\<close> has a confirm stage \<open>c\<close>, after any sequence of calls without
  a \<open>recordConfirm\<close> on \<open>a\<close> the stage is still \<open>c\<close> whenever the lifecycle is in the
  map, the ledger has gained no confirm event for \<open>a\<close>, the lifecycle is still in the
  map when no signature-index entry led to it, and every \<open>validateConfirm\<close> on \<open>a\<close>
  throws.
\<close>

theorem confirm_stage_kept_by_other_calls:
  assumes "lifecycles st a = Some lc" and "confirm lc = Some c"
    and "\<forall>op\<in>set ops. allocated op \<noteq> Some a \<and> recorded op \<noteq> Some a"
  shows "(case lifecycles (run_ops ops st) a of
            None \<Rightarrow> True
          | Some lc' \<Rightarrow> confirm lc' = Some c)
       \<and> confirm_events a (run_ops ops st) = confirm_events a st
       \<and> (no_index_entry a st \<longrightarrow> lifecycles (run_ops ops st) a \<noteq> None)
       \<and> (\<forall>s t p now. \<exists>e. validateConfirm a s t p now (run_ops ops st)
                                 = (run_ops ops st, Inl e))"
proof -
  have k: "confirm_kept a c (run_ops ops st)"
    and e: "confirm_events a (run_ops ops st) = confirm_events a st"
    using run_ops_confirm_kept [of a c st ops] assms by (simp_all add: confirm_kept_def)
  have n: "no_index_entry a st \<longrightarrow> lifecycles (run_ops ops st) a \<noteq> None"
    using run_ops_no_index_entry [of a st ops] assms by simp
  have v: "\<exists>e. validateConfirm a s t p now (run_ops ops st) = (run_ops ops st, Inl e)"
    for s t p now
  proof (cases "lifecycles (run_ops ops st) a")
    case None
    then show ?thesis by (simp add: validateConfirm_def)
  next
    case (Some lc')
    with k have "confirm lc' \<noteq> None" by (simp add: confirm_kept_def)
    from validateConfirm_confirmed [OF Some this] show ?thesis .
  qed
  from k e n v show ?thesis by (simp add: confirm_kept_def)
qed

lemma confirmedStore_A:
  "map_option (\<lambda>lc. map_option result (confirm lc)) (lifecycles confirmedStore ''A'')
     = Some (Some (JNum 1))"
  by (simp add: confirmedStore_def approvedStore_eq recordConfirm_def Let_def)

lemma confirmedStore_index: "no_index_entry ''A'' confirmedStore"
  by (simp add: confirmedStore_def approvedStore_eq no_index_entry_def recordConfirm_def
      Let_def)

theorem confirm_stage_kept_by_other_calls_witness:
  "map_option (\<lambda>lc. map_option result (confirm lc))
     (lifecycles
        (run_ops [OpValidateConfirm ''A'' ''s'' ''t'' (JObj []) 6,
                  OpRecordPlan ''s'' ''t'' (JObj []) JNull None ''B'' 7,
                  OpRecordDryRun ''s'' ''t'' (JObj []) JNull (Some ''Reviewer'') None 8,
                  OpRecordConfirm ''B'' ''s'' ''t'' (JObj []) (JNum 3) None 9]
           confirmedStore) ''A'')
   = Some (Some (JNum 1))
   \<and> validateConfirm ''A'' ''s'' ''t'' (JObj []) 6 confirmedStore =
       (confirmedStore, Inl (Error ''Action already confirmed.''))"
proof -
  let ?ops = "[OpValidateConfirm ''A'' ''s'' ''t'' (JObj []) 6,
               OpRecordPlan ''s'' ''t'' (JObj []) JNull None ''B'' 7,
               OpRecordDryRun ''s'' ''t'' (JObj []) JNull (Some ''Reviewer'') None 8,
               OpRecordConfirm ''B'' ''s'' ''t'' (JObj []) (JNum 3) None 9]"
  obtain lc c where lc: "lifecycles confirmedStore ''A'' = Some lc"
    and c: "confirm lc = Some c" and r: "result c = JNum 1"
    using confirmedStore_A by (auto simp add: map_option_case split: option.splits)
  have al: "\<forall>op\<in>set ?ops. allocated op \<noteq> Some ''A'' \<and> recorded op \<noteq> Some ''A''" by simp
  have v: "validateConfirm ''A'' ''s'' ''t'' (JObj []) 6 confirmedStore =
       (confirmedStore, Inl (Error ''Action already confirmed.''))"
    by (simp add: confirmedStore_def approvedStore_eq recordConfirm_def validateConfirm_def
        computeSignature_def Let_def)
  from confirm_stage_kept_by_other_calls [OF lc c al] confirmedStore_index r v
  show ?thesis by (auto split: option.splits)
qed

section \<open>Properties of the canonical serialisation\<close>

lemma map_of_in_keys: "key \<in> set (map fst ps) \<Longrightarrow> \<exists>v. map_of ps key = Some v \<and> (key, v) \<in> set ps"
  by (induction ps) auto

lemma stableStringify_same_value:
  "wf_json a \<Longrightarrow> wf_json b \<Longrightarrow> same_value a b \<Longrightarrow> stableStringify a = stableStringify b"
proof (induction a arbitrary: b)
  case (JArr xs)
  from JArr.prems(3) obtain ys where b: "b = JArr ys" and all2: "list_all2 same_value xs ys"
    by (auto split: json.splits)
  have wfx: "\<forall>x\<in>set xs. wf_json x" using JArr.prems(1) by simp
  have wfy: "\<forall>y\<in>set ys. wf_json y" using JArr.prems(2) b by simp
  have "map stableStringify xs = map stableStringify ys"
    using all2 wfx wfy JArr.IH
  proof (induction xs ys rule: list_all2_induct)
    case Nil
    show ?case by simp
  next
    case (Cons x xs y ys)
    have "stableStringify x = stableStringify y"
      using Cons.prems(3) [of x y] Cons.prems(1,2) Cons.hyps(1) by simp
    moreover have "map stableStringify xs = map stableStringify ys"
      using Cons.IH Cons.prems by simp
    ultimately show ?case by simp
  qed
  with b show ?case by simp
next
  case (JObj ps)
  from JObj.prems(3) obtain qs where b: "b = JObj qs"
    and keys: "set (map fst ps) = set (map fst qs)"
    and vals: "\<forall>key\<in>set (map fst ps).
             case map_of ps key of
               None \<Rightarrow> False
             | Some v \<Rightarrow> (case map_of qs key of None \<Rightarrow> False | Some w \<Rightarrow> same_value v w)"
    by (auto split: json.splits)
  have dp: "distinct (map fst ps)" and dq: "distinct (map fst qs)"
    using JObj.prems(1,2) b by simp_all
  have sorted_keys: "sort (map fst ps) = sort (map fst qs)"
    using dp dq keys by (intro sorted_distinct_set_unique) simp_all
  have entry: "(case map_of ps key of Some v \<Rightarrow> stableStringify v | None \<Rightarrow> ''undefined'')
        = (case map_of qs key of Some v \<Rightarrow> stableStringify v | None \<Rightarrow> ''undefined'')"
    if k: "key \<in> set (map fst ps)" for key
  proof -
    from map_of_in_keys [OF k] obtain v where v: "map_of ps key = Some v" and vin: "(key, v) \<in> set ps"
      by blast
    from vals k v obtain w where w: "map_of qs key = Some w" and sv: "same_value v w"
      by (auto split: option.splits)
    have win: "(key, w) \<in> set qs" using w by (rule map_of_SomeD)
    have "wf_json v" using JObj.prems(1) vin by auto
    moreover have "wf_json w" using JObj.prems(2) b win by auto
    ultimately have "stableStringify v = stableStringify w"
      using JObj.IH [of "(key, v)" v w] vin sv by simp
    with v w show ?thesis by simp
  qed
  have entries:
    "map (\<lambda>key. quote_string key @ '':'' @
            (case map_of ps key of Some v \<Rightarrow> stableStringify v | None \<Rightarrow> ''undefined''))
       (sort (map fst ps))
     = map (\<lambda>key. quote_string key @ '':'' @
            (case map_of qs key of Some v \<Rightarrow> stableStringify v | None \<Rightarrow> ''undefined''))
       (sort (map fst ps))"
  proof (rule map_cong [OF refl])
    fix key
    assume "key \<in> set (sort (map fst ps))"
    then have "key \<in> set (map fst ps)" by simp
    from entry [OF this]
    show "quote_string key @ '':'' @
            (case map_of ps key of Some v \<Rightarrow> stableStringify v | None \<Rightarrow> ''undefined'')
        = quote_string key @ '':'' @
            (case map_of qs key of Some v \<Rightarrow> stableStringify v | None \<Rightarrow> ''undefined'')"
      by simp
  qed
  show ?case
    by (simp only: b stableStringify.simps Let_def sorted_keys [symmetric] entries)
qed simp_all

text \<open>
  C5. Two values (whose objects hold each key once, as JavaScript objects do) that are
  equal as trees (objects compared by their key-value pairs regardless of insertion
  order, arrays in order) have the same \<open>stableStringify\<close>
  string, and hence the same signature for the same session and tool.
\<close>

theorem canonical_signature:
  assumes "wf_json a" and "wf_json b" and "same_value a b"
  shows "stableStringify a = stableStringify b
       \<and> computeSignature s t a = computeSignature s t b"
  using stableStringify_same_value [OF assms] by (simp add: computeSignature_def)

theorem canonical_signature_witness:
  "stableStringify (JObj [(''b'', JArr [JBool True, JNull]), (''a'', JNum 1)])
     = stableStringify (JObj [(''a'', JNum 1), (''b'', JArr [JBool True, JNull])])
   \<and> computeSignature ''s'' ''t'' (JObj [(''b'', JArr [JBool True, JNull]), (''a'', JNum 1)])
     = computeSignature ''s'' ''t'' (JObj [(''a'', JNum 1), (''b'', JArr [JBool True, JNull])])"
proof -
  have 1: "wf_json (JObj [(''b'', JArr [JBool True, JNull]), (''a'', JNum 1)])" by simp
  have 2: "wf_json (JObj [(''a'', JNum 1), (''b'', JArr [JBool True, JNull])])" by simp
  have 3: "same_value (JObj [(''b'', JArr [JBool True, JNull]), (''a'', JNum 1)])
             (JObj [(''a'', JNum 1), (''b'', JArr [JBool True, JNull])])"
    by auto
  from canonical_signature [OF 1 2 3, of "''s''" "''t''"] show ?thesis .
qed

section \<open>Properties of the frame codec\<close>

lemma small_length_byte:
  assumes "n < 126"
  shows "(of_nat n :: byte) AND 0x80 = 0" and "unat ((of_nat n :: byte) AND 0x7f) = n"
proof -
  have m: "(0x7f :: byte) = mask 7" by (simp add: mask_eq_exp_minus_1)
  have "(of_nat n :: byte) AND mask 7 = of_nat n"
    using assms by (simp add: take_bit_eq_mask [symmetric] take_bit_of_nat take_bit_nat_eq_self)
  then have a: "(of_nat n :: byte) AND 0x7f = of_nat n" by (simp add: m)
  show "unat ((of_nat n :: byte) AND 0x7f) = n"
    using assms by (simp add: a unat_of_nat)
  have "bit (of_nat n :: byte) 7 \<longleftrightarrow> possible_bit TYPE(byte) 7 \<and> bit n 7"
    by (rule bit_of_nat_iff)
  moreover have "\<not> bit n 7" using assms by (simp add: bit_iff_odd)
  ultimately have "\<not> bit (of_nat n :: byte) 7" by simp
  then show "(of_nat n :: byte) AND 0x80 = 0"
    using and_exp_eq_0_iff_not_bit [of "of_nat n :: byte" 7] by simp
qed

lemma read_write_16:
  assumes "n < 65536"
  shows "readUInt16BE (a # b # writeUInt16BE n @ rest) 2 = n"
  using assms by (simp add: readUInt16BE_def writeUInt16BE_def unat_of_nat) 


lemma big_endian_32:
  fixes n :: nat
  assumes "n < 4294967296"
  shows "((n div 16777216 mod 256 * 256 + n div 65536 mod 256) * 256 + n div 256 mod 256) * 256
           + n mod 256 = n"
proof -
  define q1 where "q1 = n div 256"
  define q2 where "q2 = q1 div 256"
  define q3 where "q3 = q2 div 256"
  define r0 where "r0 = n mod 256"
  define r1 where "r1 = q1 mod 256"
  define r2 where "r2 = q2 mod 256"
  have e2: "n div 65536 = q2"
    unfolding q2_def q1_def by (simp add: div_mult2_eq [symmetric])
  have e3: "n div 16777216 = q3"
    unfolding q3_def q2_def q1_def by (simp add: div_mult2_eq [symmetric])
  have "q3 < 256" using assms unfolding e3 [symmetric] by simp
  then have m3: "q3 mod 256 = q3" by simp
  have d1: "n = 256 * q1 + r0" unfolding q1_def r0_def by simp
  have d2: "q1 = 256 * q2 + r1" unfolding q2_def r1_def by simp
  have d3: "q2 = 256 * q3 + r2" unfolding q3_def r2_def by simp
  have "256 * (256 * (256 * q3 + r2) + r1) + r0 = n"
    by (simp only: d3 [symmetric] d2 [symmetric] d1 [symmetric])
  then have "((q3 * 256 + r2) * 256 + r1) * 256 + r0 = n"
    by (simp only: mult.commute)
  then show ?thesis
    unfolding e2 e3 m3 r0_def r1_def r2_def q1_def [symmetric] .
qed

lemma read_write_32:
  assumes "n < 4294967296"
  shows "readUInt32BE (a # b # c0 # c1 # c2 # c3 # writeUInt32BE n @ rest) 6 = n"
proof -
  let ?buf = "a # b # c0 # c1 # c2 # c3 # writeUInt32BE n @ rest"
  have b: "?buf ! 6 = of_nat (n div 16777216)" "?buf ! (6 + 1) = of_nat (n div 65536)"
    "?buf ! (6 + 2) = of_nat (n div 256)" "?buf ! (6 + 3) = of_nat n"
    by (simp_all add: writeUInt32BE_def)
  have u: "unat (of_nat k :: byte) = k mod 256" for k
    by (simp add: unat_of_nat)
  show ?thesis
    unfolding readUInt32BE_def b u by (rule big_endian_32 [OF assms])
qed

lemma text_first_byte:
  "(0x80 OR ((of_nat 1 :: byte) AND 0x0f)) = 0x81"
  "(0x81 :: byte) AND 0x80 \<noteq> 0"
  "unat ((0x81 :: byte) AND 0x0f) = 1"
  by simp_all

lemma decodeBody_unmasked:
  "n = length hdr \<Longrightarrow>
   decodeBody (hdr @ p) f oc False (length p) n =
     Inr (Some \<lparr> fin = f, opcode = oc, payload = p, totalLength = n + length p \<rparr>)"
  by (simp add: decodeBody_def Let_def)

text \<open>
  C6. For every payload \<open>p\<close> shorter than 2^32 bytes, \<open>encodeFrame p 0x1\<close> returns a
  buffer, and \<open>decodeFrame\<close> on that buffer returns a frame with \<open>fin\<close> set, opcode
  \<open>0x1\<close>, payload \<open>p\<close> and \<open>totalLength\<close> the length of the buffer.
\<close>

theorem encode_decode_roundtrip:
  assumes "length p < 4294967296"
  shows "\<exists>buf. encodeFrame p 1 = Inr buf
          \<and> decodeFrame buf =
              Inr (Some \<lparr> fin = True, opcode = 1, payload = p, totalLength = length buf \<rparr>)"
proof -
  consider (short) "length p < 126"
    | (medium) "126 \<le> length p" "length p < 65536"
    | (long) "65536 \<le> length p"
    by linarith
  then show ?thesis
  proof cases
    case short
    have enc: "encodeFrame p 1 = Inr ([0x81, of_nat (length p)] @ p)"
      using short by (simp add: encodeFrame_def)
    have "decodeFrame ([0x81, of_nat (length p)] @ p) =
            decodeBody ([0x81, of_nat (length p)] @ p) True 1 False (length p) 2"
      using short small_length_byte [OF short]
      by (simp add: decodeFrame_def Let_def)
    also have "\<dots> = Inr (Some \<lparr> fin = True, opcode = 1, payload = p,
                      totalLength = length ([0x81, of_nat (length p)] @ p) \<rparr>)"
      using decodeBody_unmasked [of 2 "[0x81, of_nat (length p)]" p True 1] by simp
    finally show ?thesis using enc by simp
  next
    case medium
    let ?hdr = "[0x81, 126] @ writeUInt16BE (length p)"
    have enc: "encodeFrame p 1 = Inr (?hdr @ p)"
      using medium by (simp add: encodeFrame_def)
    have len: "length ?hdr = 4" by (simp add: writeUInt16BE_def)
    have rd: "readUInt16BE (?hdr @ p) 2 = length p"
      using read_write_16 [OF medium(2), of "0x81" 126 p] by simp
    have "decodeFrame (?hdr @ p) = decodeBody (?hdr @ p) True 1 False (length p) 4"
      using rd len by (simp add: decodeFrame_def Let_def)
    also have "\<dots> = Inr (Some \<lparr> fin = True, opcode = 1, payload = p,
                      totalLength = length (?hdr @ p) \<rparr>)"
      using decodeBody_unmasked [of 4 ?hdr p True 1] len by simp
    finally show ?thesis using enc by simp
  next
    case long
    let ?hdr = "[0x81, 127] @ writeUInt32BE 0 @ writeUInt32BE (length p)"
    have enc: "encodeFrame p 1 = Inr (?hdr @ p)"
      using long assms by (simp add: encodeFrame_def)
    have len: "length ?hdr = 10" by (simp add: writeUInt32BE_def)
    have rd: "readUInt32BE (?hdr @ p) 6 = length p"
      using read_write_32 [OF assms, of "0x81" 127 0 0 0 0 p] by (simp add: writeUInt32BE_def)
    have hi: "readUInt32BE (?hdr @ p) 2 = 0"
      by (simp add: readUInt32BE_def writeUInt32BE_def)
    have "decodeFrame (?hdr @ p) = decodeBody (?hdr @ p) True 1 False (length p) 10"
      using rd hi len by (simp add: decodeFrame_def Let_def)
    also have "\<dots> = Inr (Some \<lparr> fin = True, opcode = 1, payload = p,
                      totalLength = length (?hdr @ p) \<rparr>)"
      using decodeBody_unmasked [of 10 ?hdr p True 1] len by simp
    finally show ?thesis using enc by simp
  qed
qed

theorem encode_decode_roundtrip_witness:
  "encodeFrame [0x68, 0x69] 1 = Inr [0x81, 0x02, 0x68, 0x69]
   \<and> decodeFrame [0x81, 0x02, 0x68, 0x69] =
       Inr (Some \<lparr> fin = True, opcode = 1, payload = [0x68, 0x69], totalLength = 4 \<rparr>)"
proof -
  have e: "encodeFrame [0x68, 0x69] 1 = Inr [0x81, 0x02, 0x68, 0x69]"
    by (simp add: encodeFrame_def)
  have "length [0x68, 0x69 :: byte] < 4294967296" by simp
  from encode_decode_roundtrip [OF this] e show ?thesis by simp
qed

section \<open>Properties of the connection\<close>

lemma close_frame_1003:
  "encodeFrame (writeUInt16BE 1003 @ utf8 ''Fragmented frames are not supported'') 0x8 =
     Inr ([0x88, 0x25, 0x03, 0xEB] @ utf8 ''Fragmented frames are not supported'')"
  by (simp add: encodeFrame_def writeUInt16BE_def utf8_def)

text \<open>
  A text frame with \<open>fin = 0\<close> at the head of the buffer of an open connection:
  \<open>handleData\<close> trims it, writes the close frame with code 1003, marks the connection
  closed and returns; it emits nothing and decodes nothing more in that call.
\<close>

lemma fragmented_text_closes:
  assumes "\<not> closed conn"
    and "decodeFrame (buffer conn @ chunk) = Inr (Some f)"
    and "opcode f = 1" and "\<not> fin f"
  shows "handleData chunk conn =
           (conn \<lparr> buffer := drop (totalLength f) (buffer conn @ chunk),
                   socketOut := socketOut conn @
                     [Write ([0x88, 0x25, 0x03, 0xEB]
                        @ utf8 ''Fragmented frames are not supported''), End],
                   closed := True \<rparr>, None)"
  using assms
  by (simp add: handleData_def frameLoop.simps [of "conn \<lparr> buffer := buffer conn @ chunk \<rparr>"]
      close_def close_frame_1003)

text \<open>
  C8, on the code. A masked text frame with \<open>fin = 0\<close> (payload \<open>a\<close>) arrives on a new
  connection: \<open>handleData\<close> writes the close frame with code 1003, marks the connection
  closed and emits nothing. \<open>handleData\<close> does not look at the closed flag when the next
  chunk arrives: a masked text frame \<open>hi\<close> in a later chunk is decoded and emitted as a
  \<open>message\<close> event.
\<close>

theorem frames_after_fragment_processed:
  "closed (fst (handleData [0x01, 0x81, 0, 0, 0, 0, 0x61] newConnection))
   \<and> socketOut (fst (handleData [0x01, 0x81, 0, 0, 0, 0, 0x61] newConnection)) =
       [Write ([0x88, 0x25, 0x03, 0xEB] @ utf8 ''Fragmented frames are not supported''), End]
   \<and> emitted (fst (handleData [0x01, 0x81, 0, 0, 0, 0, 0x61] newConnection)) = []
   \<and> emitted (fst (handleData [0x81, 0x82, 0, 0, 0, 0, 0x68, 0x69]
                  (fst (handleData [0x01, 0x81, 0, 0, 0, 0, 0x61] newConnection)))) =
       [Message [0x68, 0x69]]"
proof -
  have d1: "decodeFrame [0x01, 0x81, 0, 0, 0, 0, 0x61] =
      Inr (Some \<lparr> fin = False, opcode = 1, payload = [0x61], totalLength = 7 \<rparr>)"
    by (simp add: decodeFrame_def decodeBody_def applyMask_def Let_def)
  have d2: "decodeFrame [0x81, 0x82, 0, 0, 0, 0, 0x68, 0x69] =
      Inr (Some \<lparr> fin = True, opcode = 1, payload = [0x68, 0x69], totalLength = 8 \<rparr>)"
    by (simp add: decodeFrame_def decodeBody_def applyMask_def Let_def)
  have d0: "decodeFrame [] = Inr None"
    by (simp add: decodeFrame_def)
  have h1: "handleData [0x01, 0x81, 0, 0, 0, 0, 0x61] newConnection =
      (\<lparr> buffer = [], closed = True,
         socketOut = [Write ([0x88, 0x25, 0x03, 0xEB]
                        @ utf8 ''Fragmented frames are not supported''), End],
         emitted = [] \<rparr>, None)"
    by (simp add: handleData_def newConnection_def frameLoop.simps d1 close_def
        close_frame_1003)
  show ?thesis
    unfolding h1
    by (simp add: handleData_def frameLoop.simps [of "\<lparr> buffer = [0x81, 0x82, 0, 0, 0, 0, 0x68, 0x69], closed = True, socketOut = _, emitted = _\<rparr>"] frameLoop.simps [of "\<lparr> buffer = [], closed = True, socketOut = _, emitted = _\<rparr>"] d2 d0)
qed

text \<open>
  C7, on the code. A masked close frame followed by a masked text frame \<open>hi\<close>. Delivered
  as one chunk, the loop returns at the close frame and only the \<open>close\<close> event is
  emitted; delivered as two chunks split between the frames, the second call decodes the
  text frame and a \<open>message\<close> event follows the \<open>close\<close> event.
\<close>

theorem split_after_close_differs:
  "emitted (fst (handleChunks [[0x88, 0x80, 0, 0, 0, 0] @ [0x81, 0x82, 0, 0, 0, 0, 0x68, 0x69]]
                   newConnection)) = [Close 1005 []]
   \<and> emitted (fst (handleChunks [[0x88, 0x80, 0, 0, 0, 0], [0x81, 0x82, 0, 0, 0, 0, 0x68, 0x69]]
                   newConnection)) = [Close 1005 [], Message [0x68, 0x69]]"
proof -
  have d1: "decodeFrame ([0x88, 0x80, 0, 0, 0, 0] @ rest) =
      Inr (Some \<lparr> fin = True, opcode = 8, payload = [], totalLength = 6 \<rparr>)" for rest
    by (simp add: decodeFrame_def decodeBody_def applyMask_def Let_def)
  have d2: "decodeFrame [0x81, 0x82, 0, 0, 0, 0, 0x68, 0x69] =
      Inr (Some \<lparr> fin = True, opcode = 1, payload = [0x68, 0x69], totalLength = 8 \<rparr>)"
    by (simp add: decodeFrame_def decodeBody_def applyMask_def Let_def)
  have d0: "decodeFrame [] = Inr None"
    by (simp add: decodeFrame_def)
  have one: "handleData ([0x88, 0x80, 0, 0, 0, 0] @ rest) newConnection =
      (\<lparr> buffer = rest, closed = True, socketOut = [End],
         emitted = [Close 1005 []] \<rparr>, None)" for rest
    using d1 [of rest]
    by (simp add: handleData_def newConnection_def frameLoop.simps decodeCloseFrame_def)
  have two: "handleData [0x81, 0x82, 0, 0, 0, 0, 0x68, 0x69]
       \<lparr> buffer = [], closed = True, socketOut = [End], emitted = [Close 1005 []] \<rparr> =
      (\<lparr> buffer = [], closed = True, socketOut = [End],
         emitted = [Close 1005 [], Message [0x68, 0x69]] \<rparr>, None)"
    by (simp add: handleData_def d2 d0
        frameLoop.simps [of "\<lparr> buffer = [0x81, 0x82, 0, 0, 0, 0, 0x68, 0x69], closed = True, socketOut = _, emitted = _\<rparr>"]
        frameLoop.simps [of "\<lparr> buffer = [], closed = True, socketOut = _, emitted = _\<rparr>"])
  show ?thesis
    using one [of "[0x81, 0x82, 0, 0, 0, 0, 0x68, 0x69]"] one [of "[]"] two
    by simp
qed

subsection \<open>Reassembly while the connection stays open\<close>

text \<open>
  A frame that \<open>decodeFrame\<close> has found, or an oversized length it has rejected, is
  found again when more bytes follow the buffer.
\<close>

lemma decodeBody_append:
  assumes "decodeBody buf f oc m n off \<noteq> Inr None"
  shows "decodeBody (buf @ x) f oc m n off = decodeBody buf f oc m n off"
  using assms
  by (auto simp add: decodeBody_def Let_def split: if_splits)

lemma decodeFrame_append:
  assumes "decodeFrame buf \<noteq> Inr None"
  shows "decodeFrame (buf @ x) = decodeFrame buf"
proof -
  from assms have len: "2 \<le> length buf"
    by (auto simp add: decodeFrame_def split: if_splits)
  then have b01: "(buf @ x) ! 0 = buf ! 0" "(buf @ x) ! 1 = buf ! 1"
    by (auto simp add: nth_append)
  show ?thesis
  proof (cases "unat (buf ! 1 AND 0x7f) = 126")
    case True
    with assms len have l4: "4 \<le> length buf"
      by (auto simp add: decodeFrame_def Let_def split: if_splits)
    then have r: "readUInt16BE (buf @ x) 2 = readUInt16BE buf 2"
      by (simp add: readUInt16BE_def nth_append)
    from assms True len l4
    have nb: "decodeBody buf (buf ! 0 AND 0x80 \<noteq> 0) (unat (buf ! 0 AND 0x0f))
                (buf ! 1 AND 0x80 \<noteq> 0) (readUInt16BE buf 2) 4 \<noteq> Inr None"
      by (simp add: decodeFrame_def Let_def)
    show ?thesis
      using True len l4 r b01 decodeBody_append [OF nb, of x]
      by (simp add: decodeFrame_def Let_def)
  next
    case n126: False
    show ?thesis
    proof (cases "unat (buf ! 1 AND 0x7f) = 127")
      case True
      with assms len have l10: "10 \<le> length buf"
        by (auto simp add: decodeFrame_def Let_def split: if_splits)
      then have r: "readUInt32BE (buf @ x) 2 = readUInt32BE buf 2"
        "readUInt32BE (buf @ x) (2 + 4) = readUInt32BE buf (2 + 4)"
        by (simp_all add: readUInt32BE_def nth_append)
      show ?thesis
      proof (cases "readUInt32BE buf 2 = 0")
        case hz: True
        from assms True len l10 hz
        have nb: "decodeBody buf (buf ! 0 AND 0x80 \<noteq> 0) (unat (buf ! 0 AND 0x0f))
                (buf ! 1 AND 0x80 \<noteq> 0) (readUInt32BE buf (2 + 4)) 10 \<noteq> Inr None"
          by (simp add: decodeFrame_def Let_def)
        show ?thesis
          using True len l10 r b01 hz decodeBody_append [OF nb, of x]
          by (simp add: decodeFrame_def Let_def)
      next
        case False
        then show ?thesis
          using True len l10 r b01
          by (simp add: decodeFrame_def Let_def)
      qed
    next
      case False
      from assms n126 False len
      have nb: "decodeBody buf (buf ! 0 AND 0x80 \<noteq> 0) (unat (buf ! 0 AND 0x0f))
                (buf ! 1 AND 0x80 \<noteq> 0) (unat (buf ! 1 AND 0x7f)) 2 \<noteq> Inr None"
        by (simp add: decodeFrame_def Let_def)
      show ?thesis
        using n126 False len b01 decodeBody_append [OF nb, of x]
        by (simp add: decodeFrame_def Let_def)
    qed
  qed
qed


lemma close_append:
  "close code reason (conn \<lparr> buffer := buffer conn @ x \<rparr>) =
     (case close code reason conn of (c1, r) \<Rightarrow> (c1 \<lparr> buffer := buffer c1 @ x \<rparr>, r))"
  by (simp add: close_def split: sum.splits)

lemma close_closes:
  "close code reason conn = (c1, None) \<Longrightarrow> closed c1"
  by (auto simp add: close_def split: if_splits sum.splits)

lemma frameLoop_append:
  "\<not> closed conn \<Longrightarrow>
   frameLoop (conn \<lparr> buffer := buffer conn @ x \<rparr>) =
     (case frameLoop conn of
        (c1, Some e) \<Rightarrow> (c1 \<lparr> buffer := buffer c1 @ x \<rparr>, Some e)
      | (c1, None) \<Rightarrow>
          if closed c1 then (c1 \<lparr> buffer := buffer c1 @ x \<rparr>, None)
          else frameLoop (c1 \<lparr> buffer := buffer c1 @ x \<rparr>))"
proof (induction conn rule: frameLoop.induct)
  case (1 conn)
  note open_conn = \<open>\<not> closed conn\<close>
  show ?case
  proof (cases "decodeFrame (buffer conn)")
    case (Inl e)
    then have "decodeFrame (buffer conn @ x) = Inl e"
      using decodeFrame_append [of "buffer conn" x] by simp
    then show ?thesis using Inl
      by (simp add: frameLoop.simps [of conn]
          frameLoop.simps [of "conn \<lparr> buffer := buffer conn @ x \<rparr>"])
  next
    case (Inr r)
    show ?thesis
    proof (cases r)
      case None
      with Inr open_conn show ?thesis
        by (simp add: frameLoop.simps [of conn])
    next
      case (Some f)
      have dec: "decodeFrame (buffer conn) = Inr (Some f)" using Inr Some by simp
      then have app: "decodeFrame (buffer conn @ x) = Inr (Some f)"
        using decodeFrame_append [of "buffer conn" x] by simp
      have dr: "drop (totalLength f) (buffer conn @ x) = drop (totalLength f) (buffer conn) @ x"
        using decodeFrame_progress(2) [OF dec] by simp
      define c1 where "c1 = conn \<lparr> buffer := drop (totalLength f) (buffer conn) \<rparr>"
      have c1x: "conn \<lparr> buffer := buffer conn @ x \<rparr>
                   \<lparr> buffer := drop (totalLength f) (buffer conn) @ x \<rparr>
                 = c1 \<lparr> buffer := buffer c1 @ x \<rparr>"
        by (simp add: c1_def)
      have open_c1: "\<not> closed c1" using open_conn by (simp add: c1_def)
      consider (msg) "opcode f = 1" "fin f"
        | (fragment) "opcode f = 1" "\<not> fin f"
        | (closing) "opcode f = 8"
        | (ping) "opcode f = 9"
        | (pong) "opcode f = 10"
        | (other) "opcode f \<noteq> 1" "opcode f \<noteq> 8" "opcode f \<noteq> 9" "opcode f \<noteq> 10"
        by blast
      then show ?thesis
      proof cases
        case msg
        define c2 where "c2 = c1 \<lparr> emitted := emitted c1 @ [Message (payload f)] \<rparr>"
        have "frameLoop (conn \<lparr> buffer := buffer conn @ x \<rparr>)
                  = frameLoop (conn \<lparr> buffer := drop (totalLength f) (buffer conn) @ x,
                                 emitted := emitted conn @ [Message (payload f)] \<rparr>)"
          using msg app dr
          by (simp add: frameLoop.simps [of "conn \<lparr> buffer := buffer conn @ x \<rparr>"])
        also have "conn \<lparr> buffer := drop (totalLength f) (buffer conn) @ x,
                          emitted := emitted conn @ [Message (payload f)] \<rparr>
                   = c2 \<lparr> buffer := buffer c2 @ x \<rparr>"
          by (cases conn) (simp add: c1_def c2_def)
        finally have L: "frameLoop (conn \<lparr> buffer := buffer conn @ x \<rparr>)
                  = frameLoop (c2 \<lparr> buffer := buffer c2 @ x \<rparr>)" .
        have R: "frameLoop conn = frameLoop c2"
          using msg dec by (simp add: frameLoop.simps [of conn] c1_def c2_def)
        have "\<not> closed c2" using open_c1 by (simp add: c2_def)
        moreover have "\<not> \<not> fin f" using msg by simp
        ultimately have
          "frameLoop (c2 \<lparr> buffer := buffer c2 @ x \<rparr>) =
             (case frameLoop c2 of
                (c1, Some e) \<Rightarrow> (c1 \<lparr> buffer := buffer c1 @ x \<rparr>, Some e)
              | (c1, None) \<Rightarrow>
                  if closed c1 then (c1 \<lparr> buffer := buffer c1 @ x \<rparr>, None)
                  else frameLoop (c1 \<lparr> buffer := buffer c1 @ x \<rparr>))"
          using "1.IH"(1) [OF Inr Some c1_def msg(1)] unfolding c2_def by blast
        then show ?thesis unfolding L R .
      next
        case fragment
        have L: "frameLoop (conn \<lparr> buffer := buffer conn @ x \<rparr>)
                  = close 1003 ''Fragmented frames are not supported''
                      (c1 \<lparr> buffer := buffer c1 @ x \<rparr>)"
          using fragment app dr
          by (simp add: frameLoop.simps [of "conn \<lparr> buffer := buffer conn @ x \<rparr>"] c1_def)
        have R: "frameLoop conn = close 1003 ''Fragmented frames are not supported'' c1"
          using fragment dec by (simp add: frameLoop.simps [of conn] c1_def)
        show ?thesis unfolding L R close_append
          by (auto split: prod.splits option.splits dest: close_closes)
      next
        case closing
        obtain code reason where cf: "decodeCloseFrame (payload f) = (code, reason)"
          by (cases "decodeCloseFrame (payload f)")
        define c3 where "c3 = conn \<lparr> buffer := drop (totalLength f) (buffer conn),
                                    emitted := emitted conn @ [Close code reason],
                                    closed := True,
                                    socketOut := socketOut conn @ [End] \<rparr>"
        have "frameLoop (conn \<lparr> buffer := buffer conn @ x \<rparr>)
                = (conn \<lparr> buffer := drop (totalLength f) (buffer conn) @ x,
                          emitted := emitted conn @ [Close code reason],
                          closed := True,
                          socketOut := socketOut conn @ [End] \<rparr>, None)"
          using closing app dr cf
          by (simp add: frameLoop.simps [of "conn \<lparr> buffer := buffer conn @ x \<rparr>"])
        also have "conn \<lparr> buffer := drop (totalLength f) (buffer conn) @ x,
                          emitted := emitted conn @ [Close code reason],
                          closed := True,
                          socketOut := socketOut conn @ [End] \<rparr>
                   = c3 \<lparr> buffer := buffer c3 @ x \<rparr>"
          by (cases conn) (simp add: c3_def)
        finally have L: "frameLoop (conn \<lparr> buffer := buffer conn @ x \<rparr>)
                = (c3 \<lparr> buffer := buffer c3 @ x \<rparr>, None)" .
        have R: "frameLoop conn = (c3, None)"
          using closing dec cf by (simp add: frameLoop.simps [of conn] c3_def)
        have "closed c3" by (simp add: c3_def)
        then show ?thesis unfolding L R by simp
      next
        case ping
        show ?thesis
        proof (cases "encodeFrame (payload f) 10")
          case (Inl e)
          then show ?thesis
            using ping app dr dec
            by (simp add: frameLoop.simps [of "conn \<lparr> buffer := buffer conn @ x \<rparr>"]
                frameLoop.simps [of conn])
        next
          case pf: (Inr pongFrame)
          define c2 where "c2 = c1 \<lparr> socketOut := socketOut c1 @ [Write pongFrame] \<rparr>"
          have "frameLoop (conn \<lparr> buffer := buffer conn @ x \<rparr>)
                    = frameLoop (conn \<lparr> buffer := drop (totalLength f) (buffer conn) @ x,
                                   socketOut := socketOut conn @ [Write pongFrame] \<rparr>)"
            using ping app dr pf
            by (simp add: frameLoop.simps [of "conn \<lparr> buffer := buffer conn @ x \<rparr>"])
          also have "conn \<lparr> buffer := drop (totalLength f) (buffer conn) @ x,
                            socketOut := socketOut conn @ [Write pongFrame] \<rparr>
                     = c2 \<lparr> buffer := buffer c2 @ x \<rparr>"
            by (cases conn) (simp add: c1_def c2_def)
          finally have L: "frameLoop (conn \<lparr> buffer := buffer conn @ x \<rparr>)
                    = frameLoop (c2 \<lparr> buffer := buffer c2 @ x \<rparr>)" .
          have R: "frameLoop conn = frameLoop c2"
            using ping dec pf by (simp add: frameLoop.simps [of conn] c1_def c2_def)
          have "\<not> closed c2" using open_c1 by (simp add: c2_def)
          moreover have "opcode f \<noteq> 1" "opcode f \<noteq> 8" using ping by simp_all
          ultimately have
            "frameLoop (c2 \<lparr> buffer := buffer c2 @ x \<rparr>) =
               (case frameLoop c2 of
                  (c1, Some e) \<Rightarrow> (c1 \<lparr> buffer := buffer c1 @ x \<rparr>, Some e)
                | (c1, None) \<Rightarrow>
                    if closed c1 then (c1 \<lparr> buffer := buffer c1 @ x \<rparr>, None)
                    else frameLoop (c1 \<lparr> buffer := buffer c1 @ x \<rparr>))"
            using "1.IH"(2) [OF Inr Some c1_def _ _ ping pf] unfolding c2_def by blast
          then show ?thesis unfolding L R .
        qed
      next
        case pong
        have L: "frameLoop (conn \<lparr> buffer := buffer conn @ x \<rparr>)
                  = frameLoop (c1 \<lparr> buffer := buffer c1 @ x \<rparr>)"
          using pong app dr
          by (simp add: frameLoop.simps [of "conn \<lparr> buffer := buffer conn @ x \<rparr>"] c1_def)
        have R: "frameLoop conn = frameLoop c1"
          using pong dec by (simp add: frameLoop.simps [of conn] c1_def)
        have "opcode f \<noteq> 1" "opcode f \<noteq> 8" "opcode f \<noteq> 9" using pong by simp_all
        then have
          "frameLoop (c1 \<lparr> buffer := buffer c1 @ x \<rparr>) =
             (case frameLoop c1 of
                (c1, Some e) \<Rightarrow> (c1 \<lparr> buffer := buffer c1 @ x \<rparr>, Some e)
              | (c1, None) \<Rightarrow>
                  if closed c1 then (c1 \<lparr> buffer := buffer c1 @ x \<rparr>, None)
                  else frameLoop (c1 \<lparr> buffer := buffer c1 @ x \<rparr>))"
          using "1.IH"(3) [OF Inr Some c1_def _ _ _ pong] open_c1 by blast
        then show ?thesis unfolding L R .
      next
        case other
        have L: "frameLoop (conn \<lparr> buffer := buffer conn @ x \<rparr>)
                  = close 1003 ''Unsupported WebSocket opcode''
                      (c1 \<lparr> buffer := buffer c1 @ x \<rparr>)"
          using other app dr
          by (simp add: frameLoop.simps [of "conn \<lparr> buffer := buffer conn @ x \<rparr>"] c1_def)
        have R: "frameLoop conn = close 1003 ''Unsupported WebSocket opcode'' c1"
          using other dec by (simp add: frameLoop.simps [of conn] c1_def)
        show ?thesis unfolding L R close_append
          by (auto split: prod.splits option.splits dest: close_closes)
      qed
    qed
  qed
qed


lemma handleData_split:
  assumes "\<not> closed conn" and "handleData (c @ rest) conn = (conn', None)"
    and "\<not> closed conn'"
  shows "\<exists>c1. handleData c conn = (c1, None) \<and> \<not> closed c1
              \<and> handleData rest c1 = (conn', None)"
proof -
  define cc where "cc = conn \<lparr> buffer := buffer conn @ c \<rparr>"
  have o: "\<not> closed cc" using assms(1) by (simp add: cc_def)
  have e: "conn \<lparr> buffer := buffer conn @ c @ rest \<rparr> = cc \<lparr> buffer := buffer cc @ rest \<rparr>"
    by (simp add: cc_def)
  obtain c1 r where fl: "frameLoop cc = (c1, r)" by (cases "frameLoop cc")
  from assms(2) have "frameLoop (cc \<lparr> buffer := buffer cc @ rest \<rparr>) = (conn', None)"
    by (simp add: handleData_def e)
  with frameLoop_append [OF o, of rest] fl assms(3)
  have "r = None \<and> \<not> closed c1
          \<and> frameLoop (c1 \<lparr> buffer := buffer c1 @ rest \<rparr>) = (conn', None)"
    by (cases r) (auto split: if_splits)
  with fl show ?thesis
    by (auto simp add: handleData_def cc_def)
qed

lemma frameLoop_at_rest:
  assumes "\<not> closed conn" and "frameLoop conn = (c1, None)" and "\<not> closed c1"
  shows "frameLoop c1 = (c1, None)"
proof -
  have "frameLoop (conn \<lparr> buffer := buffer conn @ [] \<rparr>) = frameLoop conn" by simp
  with frameLoop_append [OF assms(1), of "[]"] assms(2,3)
  show ?thesis by simp
qed

lemma chunks_while_open:
  "\<not> closed conn \<Longrightarrow> frameLoop conn = (conn, None) \<Longrightarrow>
   handleData (concat chunks) conn = (conn', None) \<Longrightarrow> \<not> closed conn' \<Longrightarrow>
   handleChunks chunks conn = (conn', None)"
proof (induction chunks arbitrary: conn)
  case Nil
  then show ?case by (simp add: handleData_def)
next
  case (Cons c chunks)
  from Cons.prems(3) have "handleData (c @ concat chunks) conn = (conn', None)" by simp
  from handleData_split [OF Cons.prems(1) this Cons.prems(4)]
  obtain c1 where h: "handleData c conn = (c1, None)" and o: "\<not> closed c1"
    and r: "handleData (concat chunks) c1 = (conn', None)"
    by blast
  have "\<not> closed (conn \<lparr> buffer := buffer conn @ c \<rparr>)" using Cons.prems(1) by simp
  from frameLoop_at_rest [OF this h [unfolded handleData_def] o]
  have "frameLoop c1 = (c1, None)" .
  from Cons.IH [OF o this r Cons.prems(4)] h show ?case by simp
qed

text \<open>
  On an open connection whose buffer holds no complete frame, when the bytes delivered as
  a single chunk leave the connection open, the same bytes delivered in any partition
  into consecutive chunks leave the connection in the same state: the same buffer, the
  same socket writes and the same emitted events.
\<close>

theorem chunking_independent_while_open:
  assumes "\<not> closed conn" and "decodeFrame (buffer conn) = Inr None"
    and "handleData (concat chunks) conn = (conn', None)" and "\<not> closed conn'"
  shows "handleChunks chunks conn = (conn', None)"
proof -
  have "frameLoop conn = (conn, None)"
    using assms(2) by (simp add: frameLoop.simps [of conn])
  from chunks_while_open [OF assms(1) this assms(3,4)] show ?thesis .
qed

theorem chunking_independent_while_open_witness:
  "handleChunks [[0x81, 0x82, 0, 0], [0, 0, 0x68], [0x69]] newConnection =
     (\<lparr> buffer = [], closed = False, socketOut = [], emitted = [Message [0x68, 0x69]] \<rparr>,
      None)"
proof -
  have d2: "decodeFrame [0x81, 0x82, 0, 0, 0, 0, 0x68, 0x69] =
      Inr (Some \<lparr> fin = True, opcode = 1, payload = [0x68, 0x69], totalLength = 8 \<rparr>)"
    by (simp add: decodeFrame_def decodeBody_def applyMask_def Let_def)
  have d0: "decodeFrame [] = Inr None"
    by (simp add: decodeFrame_def)
  have single: "handleData (concat [[0x81, 0x82, 0, 0], [0, 0, 0x68], [0x69]]) newConnection =
     (\<lparr> buffer = [], closed = False, socketOut = [], emitted = [Message [0x68, 0x69]] \<rparr>,
      None)"
    by (simp add: handleData_def newConnection_def d2 d0
        frameLoop.simps [of "\<lparr> buffer = [0x81, 0x82, 0, 0, 0, 0, 0x68, 0x69], closed = False, socketOut = [], emitted = []\<rparr>"]
        frameLoop.simps [of "\<lparr> buffer = [], closed = False, socketOut = [], emitted = _\<rparr>"])
  have o: "\<not> closed newConnection" by (simp add: newConnection_def)
  have p: "decodeFrame (buffer newConnection) = Inr None"
    by (simp add: newConnection_def d0)
  from chunking_independent_while_open [OF o p single] show ?thesis by simp
qed

section \<open>Properties of the session dispatcher\<close>

text \<open>
  C9. On a session that is not yet initialized, \<open>handleInitialize\<close> sets the initialized
  flag, stores the client descriptor of the request (or null) and sends the response
  with the request's id whose result carries the protocol version 2024-05-22, the three
  tool capabilities and the catalog with the name, description and input schema of every
  registered tool. On the session it leaves behind, every later \<open>handleInitialize\<close>,
  whatever the request, the time and the event store, sends the error with code -32600
  and message "Session already initialized" and leaves the session, and so its flag and
  its client descriptor, as it was.
\<close>

theorem initialize_once:
  assumes "\<not> initialized sess"
  shows "let (sess1, evs1, out1) = handleInitialize tools now sess message evs
         in sess1 = sess \<lparr> initialized := True,
                            clientInfo := Some
                              (case params message of
                                 Some (JObj props) \<Rightarrow>
                                   (case map_of props ''client'' of
                                      Some v \<Rightarrow> v
                                    | None \<Rightarrow> JNull)
                               | _ \<Rightarrow> JNull) \<rparr>
          \<and> out1 =
              JObj [(''jsonrpc'', JStr ''2.0''),
                    (''id'', case rid message of Some v \<Rightarrow> v | None \<Rightarrow> JNull),
                    (''result'',
                       JObj [(''protocolVersion'', JStr ''2024-05-22''),
                             (''capabilities'',
                                JObj [(''tools'',
                                         JObj [(''list'', JBool True),
                                               (''call'', JBool True),
                                               (''streaming'', JBool True)])]),
                             (''tools'',
                                JArr (map (\<lambda>t. JObj [(''name'', JStr (name t)),
                                                      (''description'', JStr (description t)),
                                                      (''inputSchema'', inputSchema t)])
                                        tools))])]
          \<and> (\<forall>message' now' evs'.
                 handleInitialize tools now' sess1 message' evs' =
                   (sess1, evs',
                    JObj [(''jsonrpc'', JStr ''2.0''),
                          (''id'', case rid message' of Some v \<Rightarrow> v | None \<Rightarrow> JNull),
                          (''error'',
                             JObj [(''code'', JNum (- 32600)),
                                   (''message'', JStr ''Session already initialized'')])]))"
  using assms
  by (simp add: handleInitialize_def Let_def responsePayload_def errorPayload_def
      initializeResult_def toolCatalog_def id_or_null_def params_client_def)

theorem initialize_once_witness:
  "handleInitialize [echoTool] 0 \<lparr> sid = ''s'', initialized = False, clientInfo = None \<rparr>
     exampleRequest [] =
     (\<lparr> sid = ''s'', initialized = True, clientInfo = Some (JStr ''Reviewer'') \<rparr>,
      [SessionInitialized ''s'' (JStr ''Reviewer'') 0],
      JObj [(''jsonrpc'', JStr ''2.0''), (''id'', JNum 1),
            (''result'',
               JObj [(''protocolVersion'', JStr ''2024-05-22''),
                     (''capabilities'',
                        JObj [(''tools'',
                                 JObj [(''list'', JBool True), (''call'', JBool True),
                                       (''streaming'', JBool True)])]),
                     (''tools'',
                        JArr [JObj [(''name'', JStr ''echo''),
                                    (''description'', JStr ''Echoes its input''),
                                    (''inputSchema'', JObj [(''type'', JStr ''object'')])]])])])
   \<and> handleInitialize [echoTool] 5
       \<lparr> sid = ''s'', initialized = True, clientInfo = Some (JStr ''Reviewer'') \<rparr>
       exampleRequest [] =
     (\<lparr> sid = ''s'', initialized = True, clientInfo = Some (JStr ''Reviewer'') \<rparr>,
      [],
      JObj [(''jsonrpc'', JStr ''2.0''), (''id'', JNum 1),
            (''error'',
               JObj [(''code'', JNum (- 32600)),
                     (''message'', JStr ''Session already initialized'')])])"
proof -
  have n: "\<not> initialized \<lparr> sid = ''s'', initialized = False, clientInfo = None \<rparr>" by simp
  have ev: "fst (snd (handleInitialize [echoTool] 0
                \<lparr> sid = ''s'', initialized = False, clientInfo = None \<rparr> exampleRequest []))
            = [SessionInitialized ''s'' (JStr ''Reviewer'') 0]"
    by (simp add: handleInitialize_def exampleRequest_def params_client_def Let_def)
  from initialize_once [OF n, of "[echoTool]" 0 exampleRequest "[]"] ev
  show ?thesis
    by (auto simp add: Let_def exampleRequest_def echoTool_def split: prod.splits)
qed

end
